theory Spec2Isabelle
  imports Main
begin

section \<open>JavaScript values and the string primitives the routes call\<close>

text \<open>
  Request bodies are JSON. The routes read four properties of a body (title, author, isbn,
  year) and call \<open>trim\<close>, \<open>parseInt\<close> and the truthiness test on them, so a property is a
  JavaScript value: absent (\<open>Undefined\<close>), null, a boolean, a string or a number; objects
  and arrays are left out.

  A string is a list of code units, and a \<open>char\<close> is a code unit below 256 (the Latin-1
  range of Unicode), so \<open>length\<close> counts as JavaScript does.

  The routes read a number \<open>n\<close> in three ways only: its truthiness, \<open>parseInt(n, 10)\<close>
  and its cast to a string, and the last two go through \<open>String(n)\<close>. So a number is
  carried as \<open>String(n)\<close>: \<open>1965\<close> as \<open>''1965''\<close>, zero as \<open>''0''\<close>, and a number from
  \<open>1e21\<close> on in the exponent notation JavaScript prints (\<open>''1e+21''\<close>).
\<close>

type_synonym objectId = nat

datatype jsnum = NaN | Num int

datatype jsval = Undefined | JNull | JBool bool | JString string | JNumber string

text \<open>\<open>!v\<close> of JavaScript; the falsy numbers are zero (\<open>String(-0)\<close> is \<open>''0''\<close> too) and \<open>NaN\<close>.\<close>

fun falsy :: "jsval \<Rightarrow> bool" where
  "falsy Undefined = True"
| "falsy JNull = True"
| "falsy (JBool b) = (\<not> b)"
| "falsy (JString s) = (s = [])"
| "falsy (JNumber s) = (s = ''0'' \<or> s = ''NaN'')"

text \<open>
  The white space and line terminators of ECMAScript among the code units below 256:
  tab, line feed, vertical tab, form feed, carriage return, space and no-break space.
\<close>

definition isWhiteSpace :: "char \<Rightarrow> bool" where
  "isWhiteSpace c = (c = CHR 0x09 \<or> c = CHR 0x0A \<or> c = CHR 0x0B \<or> c = CHR 0x0C
     \<or> c = CHR 0x0D \<or> c = CHR 0x20 \<or> c = CHR 0xA0)"

text \<open>\<open>String.prototype.trim\<close>: white space is removed from both ends.\<close>

definition trim :: "string \<Rightarrow> string" where
  "trim s = rev (dropWhile isWhiteSpace (rev (dropWhile isWhiteSpace s)))"

text \<open>
  \<open>String.prototype.toLowerCase\<close>: below 256 the letters with a lower case are A to Z
  and the letters from 0xC0 to 0xDE but the multiplication sign 0xD7, each 32 below its
  lower case.
\<close>

definition toLowerCase :: "string \<Rightarrow> string" where
  "toLowerCase s =
     map (\<lambda>c. let n = (of_char c :: nat)
              in if (65 \<le> n \<and> n \<le> 90) \<or> (192 \<le> n \<and> n \<le> 222 \<and> n \<noteq> 215)
                 then char_of (n + 32) else c) s"

definition startsWith :: "string \<Rightarrow> string \<Rightarrow> bool" where
  "startsWith s p = (take (length p) s = p)"

text \<open>\<open>s.split(sep)\<close> for a separator of one character.\<close>

fun splitOn :: "char \<Rightarrow> string \<Rightarrow> string list" where
  "splitOn sep [] = [[]]"
| "splitOn sep (c # cs) =
     (if c = sep then [] # splitOn sep cs
      else (case splitOn sep cs of [] \<Rightarrow> [[c]] | p # ps \<Rightarrow> (c # p) # ps))"

definition isDigit :: "char \<Rightarrow> bool" where
  "isDigit c = (48 \<le> (of_char c :: nat) \<and> (of_char c :: nat) \<le> 57)"

definition digitsValue :: "string \<Rightarrow> int" where
  "digitsValue ds = foldl (\<lambda>acc c. acc * 10 + (int (of_char c) - 48)) 0 ds"

text \<open>
  \<open>parseInt(s, 10)\<close> on a string: leading white space is skipped, one sign is read, then
  the longest run of decimal digits; no digit gives \<open>NaN\<close>.
\<close>

definition parseIntString :: "string \<Rightarrow> jsnum" where
  "parseIntString s =
     (let t = dropWhile isWhiteSpace s;
          neg = (case t of [] \<Rightarrow> False | c # _ \<Rightarrow> c = CHR ''-'');
          r = (case t of [] \<Rightarrow> [] | c # cs \<Rightarrow> if c = CHR ''-'' \<or> c = CHR ''+'' then cs else t);
          ds = takeWhile isDigit r
      in if ds = [] then NaN else Num (if neg then - digitsValue ds else digitsValue ds))"

text \<open>
  \<open>parseInt(v, 10)\<close>: the argument is first converted to a string, so a number is parsed
  from \<open>String(n)\<close> (\<open>1e21\<close> from \<open>''1e+21''\<close>, which gives 1), and \<open>''undefined''\<close>,
  \<open>''null''\<close>, \<open>''true''\<close> and \<open>''false''\<close> have no digit.
\<close>

fun parseInt :: "jsval \<Rightarrow> jsnum" where
  "parseInt (JString s) = parseIntString s"
| "parseInt (JNumber s) = parseIntString s"
| "parseInt Undefined = NaN"
| "parseInt JNull = NaN"
| "parseInt (JBool b) = NaN"

section \<open>Errors\<close>

text \<open>
  The errors the handlers catch, with the properties their \<open>catch\<close> blocks inspect:
  \<open>error.kind\<close>, \<open>error.name\<close>, \<open>error.errors\<close> and \<open>error.code\<close>.
\<close>

datatype error =
    CastError string
  | ValidationError "(string \<times> string) list"
  | MongoServerError nat
  | TypeError
  | IllegalArguments
  | StorageError

fun kind :: "error \<Rightarrow> string option" where
  "kind (CastError k) = Some k"
| "kind e = None"

fun isValidationError :: "error \<Rightarrow> bool" where
  "isValidationError (ValidationError es) = True"
| "isValidationError e = False"

fun errors :: "error \<Rightarrow> (string \<times> string) list" where
  "errors (ValidationError es) = es"
| "errors e = []"

fun code :: "error \<Rightarrow> nat option" where
  "code (MongoServerError c) = Some c"
| "code e = None"

text \<open>\<open>v.trim()\<close> on a body property: only a string has the method.\<close>

fun trimValue :: "jsval \<Rightarrow> error + string" where
  "trimValue (JString s) = Inr (trim s)"
| "trimValue v = Inl TypeError"

text \<open>\<open>messages.join('. ')\<close>.\<close>

fun join :: "string \<Rightarrow> string list \<Rightarrow> string" where
  "join sep [] = []"
| "join sep [m] = m"
| "join sep (m # ms) = m @ sep @ join sep ms"

text \<open>A template string's \<open>"${s}"\<close>.\<close>

definition quoted :: "string \<Rightarrow> string" where
  "quoted s = CHR 0x22 # s @ [CHR 0x22]"

section \<open>Documents\<close>

record book =
  b_id :: objectId
  b_user :: objectId
  title :: string
  author :: string
  isbn :: string
  year :: jsnum
  createdAt :: nat
  updatedAt :: nat

record body =
  body_title :: jsval
  body_author :: jsval
  body_isbn :: jsval
  body_year :: jsval
  body_user :: "objectId option"

datatype action = ADD | EDIT | DELETE

datatype details =
    AddDetails objectId string string jsnum
  | EditDetails objectId body
  | DeleteDetails string string jsnum

record activity =
  l_id :: objectId
  l_user :: objectId
  action :: action
  description :: string
  bookTitle :: string
  details :: details
  timestamp :: nat

record user =
  u_id :: objectId
  name :: string
  email :: string
  password :: string
  theme :: string
  resetPasswordToken :: "string option"
  resetPasswordExpire :: "nat option"
  u_createdAt :: nat

text \<open>
  The server's state: the three collections in insertion order, the generator of fresh
  object identifiers, and what the handlers wrote with \<open>console.error\<close> (the prefix and
  the error whose message was printed).
\<close>

record store =
  users :: "user list"
  books :: "book list"
  logs :: "activity list"
  nextId :: objectId
  console :: "(string \<times> error) list"

text \<open>
  What the handlers take from outside the repository: the clock, the year bound fixed when
  the book schema was loaded (\<open>new Date().getFullYear() + 1\<close>), Mongoose's cast of a string
  to an object identifier, \<open>jwt.verify\<close> with the server's secret (the \<open>id\<close> of the decoded
  payload, or nothing when it throws), \<open>jwt.sign\<close>, bcrypt, SHA-256, and two faults of
  the storage layer: whether the append to the activity log fails, and whether the
  lookup of the user in the middleware (\<open>User.findById\<close>) fails.
\<close>

record env =
  now :: nat
  maxYear :: int
  castObjectId :: "string \<Rightarrow> objectId option"
  jwtVerify :: "string \<Rightarrow> objectId option"
  jwtSign :: "objectId \<Rightarrow> string"
  bcryptHash :: "string \<Rightarrow> string"
  bcryptCompare :: "string \<Rightarrow> string \<Rightarrow> bool"
  sha256 :: "string \<Rightarrow> string"
  auditFails :: bool
  userLookupFails :: bool

section \<open>Responses\<close>

datatype data = BookData book | BooksData "book list" | LogsData "activity list"

record userView =
  v_id :: objectId
  v_name :: string
  v_email :: string
  v_theme :: string
  v_createdAt :: nat

record response =
  status :: nat
  success :: bool
  message :: "string option"
  count :: "nat option"
  data :: "data option"
  token :: "string option"
  r_user :: "userView option"

definition failure :: "nat \<Rightarrow> string \<Rightarrow> response" where
  "failure st msg =
     \<lparr>status = st, success = False, message = Some msg, count = None, data = None,
      token = None, r_user = None\<rparr>"

definition ok :: "nat \<Rightarrow> string option \<Rightarrow> nat option \<Rightarrow> data option \<Rightarrow> response" where
  "ok st msg n dt =
     \<lparr>status = st, success = True, message = msg, count = n, data = dt,
      token = None, r_user = None\<rparr>"


section \<open>The Book model\<close>

text \<open>
  The validators of one string path of a schema, in the order Mongoose runs them:
  \<open>required\<close>, \<open>minlength\<close>, \<open>maxlength\<close>; the first that fails gives the path's message.
\<close>

definition validateString ::
  "string \<Rightarrow> string \<Rightarrow> string \<Rightarrow> nat \<Rightarrow> string \<Rightarrow> nat \<Rightarrow> string \<Rightarrow> (string \<times> string) list" where
  "validateString path v requiredMsg minlength minMsg maxlength maxMsg =
     (if v = [] then [(path, requiredMsg)]
      else if length v < minlength then [(path, minMsg)]
      else if maxlength < length v then [(path, maxMsg)]
      else [])"

text \<open>
  \<open>bookSchema\<close>: the validation of a document before it is written. A year that is
  \<open>NaN\<close> does not cast to Number, which Mongoose records when the value is assigned and
  reports with the validation errors.
\<close>

definition validateBook :: "env \<Rightarrow> book \<Rightarrow> (string \<times> string) list" where
  "validateBook env b =
     (case year b of
        NaN \<Rightarrow>
          [(''year'', ''Cast to Number failed for value '' @ quoted ''NaN''
              @ '' (type number) at path '' @ quoted ''year'')]
      | Num n \<Rightarrow> [])
     @ validateString ''title'' (title b) ''Book title is required''
         1 ''Title must be at least 1 character long''
         200 ''Title cannot exceed 200 characters''
     @ validateString ''author'' (author b) ''Author name is required''
         1 ''Author name must be at least 1 character long''
         100 ''Author name cannot exceed 100 characters''
     @ validateString ''isbn'' (isbn b) ''ISBN number is required''
         10 ''ISBN must be at least 10 characters''
         17 ''ISBN cannot exceed 17 characters (including hyphens)''
     @ (case year b of
          NaN \<Rightarrow> []
        | Num n \<Rightarrow>
            if n < 1000 then [(''year'', ''Year must be a valid 4-digit year'')]
            else if maxYear env < n then [(''year'', ''Year cannot be in the future'')]
            else [])"

definition newObjectId :: "store \<Rightarrow> objectId \<times> store" where
  "newObjectId d = (nextId d, d\<lparr>nextId := Suc (nextId d)\<rparr>)"

text \<open>
  \<open>newBook.save()\<close> of a new document: validation, then the insert, which the unique index
  on \<open>isbn\<close> (\<open>bookSchema.index({ isbn: 1 }, { unique: true })\<close>) refuses with code 11000
  when any stored book has the same ISBN. The timestamps are set on save.
\<close>

definition insertBook :: "env \<Rightarrow> book \<Rightarrow> store \<Rightarrow> error + (book \<times> store)" where
  "insertBook env b d =
     (case validateBook env b of
        e # es \<Rightarrow> Inl (ValidationError (e # es))
      | [] \<Rightarrow>
          if find (\<lambda>x. isbn x = isbn b) (books d) \<noteq> None then Inl (MongoServerError 11000)
          else
            let b' = b\<lparr>createdAt := now env, updatedAt := now env\<rparr>
            in Inr (b', d\<lparr>books := books d @ [b']\<rparr>))"

text \<open>
  \<open>book.save()\<close> of a document \<open>b\<close> loaded as \<open>old\<close>: validation; nothing is written when
  no path was modified; otherwise the modified paths are written to the document of that
  \<open>_id\<close> with a new \<open>updatedAt\<close>, unless the unique index refuses the new ISBN.
\<close>

definition updateBook :: "env \<Rightarrow> book \<Rightarrow> book \<Rightarrow> store \<Rightarrow> error + (book \<times> store)" where
  "updateBook env old b d =
     (case validateBook env b of
        e # es \<Rightarrow> Inl (ValidationError (e # es))
      | [] \<Rightarrow>
          if b = old then Inr (b, d)
          else if isbn b \<noteq> isbn old
                  \<and> find (\<lambda>x. b_id x \<noteq> b_id b \<and> isbn x = isbn b) (books d) \<noteq> None
          then Inl (MongoServerError 11000)
          else
            let b' = b\<lparr>updatedAt := now env\<rparr>
            in Inr (b', d\<lparr>books := map (\<lambda>x. if b_id x = b_id b' then b' else x) (books d)\<rparr>))"

definition findOneAndDelete :: "(book \<Rightarrow> bool) \<Rightarrow> store \<Rightarrow> book option \<times> store" where
  "findOneAndDelete P d =
     (case find P (books d) of
        None \<Rightarrow> (None, d)
      | Some b \<Rightarrow> (Some b, d\<lparr>books := remove1 b (books d)\<rparr>))"

section \<open>The ActivityLog model\<close>

definition validateActivity :: "activity \<Rightarrow> (string \<times> string) list" where
  "validateActivity e =
     (if description e = [] then [(''description'', ''Path `description` is required.'')] else [])
     @ (if bookTitle e = [] then [(''bookTitle'', ''Path `bookTitle` is required.'')] else [])"

text \<open>
  \<open>ActivityLog.logActivity\<close>: \<open>this.create\<close> builds the entry, validates it and appends
  it; the append is where the storage layer can fail.
\<close>

definition logActivity ::
  "env \<Rightarrow> objectId \<Rightarrow> action \<Rightarrow> string \<Rightarrow> string \<Rightarrow> details \<Rightarrow> store
     \<Rightarrow> (error + activity) \<times> store" where
  "logActivity env userId a bt desc det d =
     (let (i, d1) = newObjectId d;
          e = \<lparr>l_id = i, l_user = userId, action = a, description = desc, bookTitle = bt,
               details = det, timestamp = now env\<rparr>
      in case validateActivity e of
           x # xs \<Rightarrow> (Inl (ValidationError (x # xs)), d1)
         | [] \<Rightarrow>
             if auditFails env then (Inl StorageError, d1)
             else (Inr e, d1\<lparr>logs := logs d1 @ [e]\<rparr>))"

text \<open>
  \<open>find(...).sort({ key: -1 })\<close>: descending by the key, documents with equal keys in
  insertion order.
\<close>

definition sortDescending :: "('a \<Rightarrow> nat) \<Rightarrow> 'a list \<Rightarrow> 'a list" where
  "sortDescending key xs = sort_key (\<lambda>x. - int (key x)) xs"

text \<open>
  \<open>ActivityLog.getUserHistory\<close>. For MongoDB a limit of 0 is no limit, and a negative
  limit returns as many documents as its absolute value.
\<close>

definition getUserHistory :: "objectId \<Rightarrow> int \<Rightarrow> store \<Rightarrow> activity list" where
  "getUserHistory userId limit d =
     (let found = sortDescending timestamp (filter (\<lambda>e. l_user e = userId) (logs d))
      in if limit = 0 then found else take (nat \<bar>limit\<bar>) found)"

section \<open>Authentication middleware\<close>

text \<open>The token \<open>protect\<close> reads from the Authorization header, when there is one.\<close>

definition bearerToken :: "string option \<Rightarrow> string option" where
  "bearerToken authorization =
     (case authorization of
        None \<Rightarrow> None
      | Some a \<Rightarrow>
          if a \<noteq> [] \<and> startsWith a ''Bearer''
          then (case splitOn (CHR '' '') a of p # t # ps \<Rightarrow> Some t | _ \<Rightarrow> None)
          else None)"

text \<open>\<open>User.findById(id)\<close>: the user of that \<open>_id\<close>, or no user, or the error thrown.\<close>

definition findById :: "env \<Rightarrow> objectId \<Rightarrow> store \<Rightarrow> error + user option" where
  "findById env i d =
     (if userLookupFails env then Inl StorageError
      else Inr (find (\<lambda>u. u_id u = i) (users d)))"

text \<open>
  \<open>protect\<close>: the rejection it sends, or the user it attaches to the request before
  calling \<open>next\<close>. The inner \<open>try\<close> holds \<open>jwt.verify\<close> and \<open>User.findById\<close>, and its
  \<open>catch\<close> answers every error of the two in the same way. Nothing before the inner
  \<open>try\<close> throws on a header that is a string, so the outer \<open>catch\<close> (500) is not
  reached.
\<close>

definition protect :: "env \<Rightarrow> string option \<Rightarrow> store \<Rightarrow> response + user" where
  "protect env authorization d =
     (case bearerToken authorization of
        None \<Rightarrow> Inl (failure 401 ''Not authorized. Please log in to access this resource.'')
      | Some t \<Rightarrow>
          if t = [] then Inl (failure 401 ''Not authorized. Please log in to access this resource.'')
          else
            (case jwtVerify env t of
               None \<Rightarrow> Inl (failure 401 ''Token is invalid or expired. Please log in again.'')
             | Some i \<Rightarrow>
                 (case findById env i d of
                    Inl e \<Rightarrow> Inl (failure 401 ''Token is invalid or expired. Please log in again.'')
                  | Inr None \<Rightarrow> Inl (failure 401 ''User not found. Please log in again.'')
                  | Inr (Some u) \<Rightarrow> Inr u)))"


section \<open>Book routes\<close>

text \<open>
  Every handler is a \<open>try\<close> block and its \<open>catch\<close>. The \<open>try\<close> block returns the
  response it sent, or the error that was thrown, with the state as it was at that
  moment; the \<open>catch\<close> block writes the error to the console and answers by the error's
  properties. \<open>u\<close> is \<open>req.user\<close>, the user \<open>protect\<close> attached.
\<close>

definition getBooks :: "env \<Rightarrow> user \<Rightarrow> store \<Rightarrow> response \<times> store" where
  "getBooks env u d =
     (let found = sortDescending createdAt (filter (\<lambda>b. b_user b = u_id u) (books d))
      in (ok 200 (Some ''Books retrieved successfully'') (Some (length found))
            (Some (BooksData found)), d))"

definition getBookCatch :: "error \<Rightarrow> store \<Rightarrow> response \<times> store" where
  "getBookCatch e d =
     (let d' = d\<lparr>console := console d @ [(''Error fetching book:'', e)]\<rparr>
      in if kind e = Some ''ObjectId'' then (failure 400 ''Invalid book ID format'', d')
         else (failure 500 ''Failed to retrieve book'', d'))"

definition getBookTry :: "env \<Rightarrow> user \<Rightarrow> string \<Rightarrow> store \<Rightarrow> (error + response) \<times> store" where
  "getBookTry env u idParam d =
     (case castObjectId env idParam of
        None \<Rightarrow> (Inl (CastError ''ObjectId''), d)
      | Some i \<Rightarrow>
          (case find (\<lambda>b. b_id b = i \<and> b_user b = u_id u) (books d) of
             None \<Rightarrow> (Inr (failure 404 ''Book not found''), d)
           | Some b \<Rightarrow> (Inr (ok 200 None None (Some (BookData b))), d)))"

definition getBook :: "env \<Rightarrow> user \<Rightarrow> string \<Rightarrow> store \<Rightarrow> response \<times> store" where
  "getBook env u idParam d =
     (case getBookTry env u idParam d of
        (Inr r, d') \<Rightarrow> (r, d')
      | (Inl e, d') \<Rightarrow> getBookCatch e d')"

definition postBookCatch :: "error \<Rightarrow> store \<Rightarrow> response \<times> store" where
  "postBookCatch e d =
     (let d' = d\<lparr>console := console d @ [(''Error adding book:'', e)]\<rparr>
      in if isValidationError e then (failure 400 (join ''. '' (map snd (errors e))), d')
         else if code e = Some 11000 then (failure 400 ''A book with this ISBN already exists'', d')
         else (failure 500 ''Failed to add book. Please try again later.'', d'))"

definition postBookTry :: "env \<Rightarrow> user \<Rightarrow> body \<Rightarrow> store \<Rightarrow> (error + response) \<times> store" where
  "postBookTry env u bd d =
     (if falsy (body_title bd) \<or> falsy (body_author bd) \<or> falsy (body_isbn bd)
         \<or> falsy (body_year bd)
      then (Inr (failure 400 ''All fields are required (title, author, isbn, year)''), d)
      else
        (case trimValue (body_isbn bd) of
           Inl e \<Rightarrow> (Inl e, d)
         | Inr i \<Rightarrow>
             (case find (\<lambda>b. isbn b = i \<and> b_user b = u_id u) (books d) of
                Some existingBook \<Rightarrow>
                  (Inr (failure 400 ''A book with this ISBN already exists in your library''), d)
              | None \<Rightarrow>
                  (case trimValue (body_title bd) of
                     Inl e \<Rightarrow> (Inl e, d)
                   | Inr t \<Rightarrow>
                       (case trimValue (body_author bd) of
                          Inl e \<Rightarrow> (Inl e, d)
                        | Inr a \<Rightarrow>
                            (let (n, d1) = newObjectId d;
                                 newBook = \<lparr>b_id = n, b_user = u_id u, title = t, author = a,
                                   isbn = i, year = parseInt (body_year bd),
                                   createdAt = now env, updatedAt = now env\<rparr>
                             in case insertBook env newBook d1 of
                                  Inl e \<Rightarrow> (Inl e, d1)
                                | Inr (savedBook, d2) \<Rightarrow>
                                    (case logActivity env (u_id u) ADD (title savedBook)
                                            (''Added '' @ quoted (title savedBook) @ '' by ''
                                               @ author savedBook @ '' to the library'')
                                            (AddDetails (b_id savedBook) (author savedBook)
                                               (isbn savedBook) (year savedBook)) d2 of
                                       (Inl e, d3) \<Rightarrow> (Inl e, d3)
                                     | (Inr entry, d3) \<Rightarrow>
                                         (Inr (ok 201
                                            (Some ''Book added successfully to your library'')
                                            None (Some (BookData savedBook))), d3))))))))"

definition postBook :: "env \<Rightarrow> user \<Rightarrow> body \<Rightarrow> store \<Rightarrow> response \<times> store" where
  "postBook env u bd d =
     (case postBookTry env u bd d of
        (Inr r, d') \<Rightarrow> (r, d')
      | (Inl e, d') \<Rightarrow> postBookCatch e d')"

text \<open>\<open>if (v) book.field = v.trim()\<close>.\<close>

definition assignTrimmed :: "jsval \<Rightarrow> (string \<Rightarrow> book \<Rightarrow> book) \<Rightarrow> book \<Rightarrow> error + book" where
  "assignTrimmed v assign b =
     (if falsy v then Inr b
      else (case trimValue v of Inl e \<Rightarrow> Inl e | Inr s \<Rightarrow> Inr (assign s b)))"

definition putBookCatch :: "error \<Rightarrow> store \<Rightarrow> response \<times> store" where
  "putBookCatch e d =
     (let d' = d\<lparr>console := console d @ [(''Error updating book:'', e)]\<rparr>
      in if kind e = Some ''ObjectId'' then (failure 400 ''Invalid book ID format'', d')
         else (failure 500 ''Failed to update book'', d'))"

definition putBookTry ::
  "env \<Rightarrow> user \<Rightarrow> string \<Rightarrow> body \<Rightarrow> store \<Rightarrow> (error + response) \<times> store" where
  "putBookTry env u idParam bd d =
     (case castObjectId env idParam of
        None \<Rightarrow> (Inl (CastError ''ObjectId''), d)
      | Some i \<Rightarrow>
          (case find (\<lambda>b. b_id b = i \<and> b_user b = u_id u) (books d) of
             None \<Rightarrow> (Inr (failure 404 ''Book not found''), d)
           | Some book \<Rightarrow>
               (let oldTitle = title book in
                case assignTrimmed (body_title bd) (\<lambda>s b. b\<lparr>title := s\<rparr>) book of
                  Inl e \<Rightarrow> (Inl e, d)
                | Inr b1 \<Rightarrow>
                    (case assignTrimmed (body_author bd) (\<lambda>s b. b\<lparr>author := s\<rparr>) b1 of
                       Inl e \<Rightarrow> (Inl e, d)
                     | Inr b2 \<Rightarrow>
                         (case assignTrimmed (body_isbn bd) (\<lambda>s b. b\<lparr>isbn := s\<rparr>) b2 of
                            Inl e \<Rightarrow> (Inl e, d)
                          | Inr b3 \<Rightarrow>
                              (let b4 = (if falsy (body_year bd) then b3
                                         else b3\<lparr>year := parseInt (body_year bd)\<rparr>)
                               in case updateBook env book b4 d of
                                    Inl e \<Rightarrow> (Inl e, d)
                                  | Inr (updatedBook, d1) \<Rightarrow>
                                      (case logActivity env (u_id u) EDIT (title updatedBook)
                                              (''Updated '' @ quoted oldTitle @ '' book details'')
                                              (EditDetails (b_id updatedBook) bd) d1 of
                                         (Inl e, d2) \<Rightarrow> (Inl e, d2)
                                       | (Inr entry, d2) \<Rightarrow>
                                           (Inr (ok 200 (Some ''Book updated successfully'')
                                              None (Some (BookData updatedBook))), d2))))))))"

definition putBook :: "env \<Rightarrow> user \<Rightarrow> string \<Rightarrow> body \<Rightarrow> store \<Rightarrow> response \<times> store" where
  "putBook env u idParam bd d =
     (case putBookTry env u idParam bd d of
        (Inr r, d') \<Rightarrow> (r, d')
      | (Inl e, d') \<Rightarrow> putBookCatch e d')"

definition deleteBookCatch :: "error \<Rightarrow> store \<Rightarrow> response \<times> store" where
  "deleteBookCatch e d =
     (let d' = d\<lparr>console := console d @ [(''Error deleting book:'', e)]\<rparr>
      in if kind e = Some ''ObjectId'' then (failure 400 ''Invalid book ID format'', d')
         else (failure 500 ''Failed to delete book'', d'))"

definition deleteBookTry ::
  "env \<Rightarrow> user \<Rightarrow> string \<Rightarrow> store \<Rightarrow> (error + response) \<times> store" where
  "deleteBookTry env u idParam d =
     (case castObjectId env idParam of
        None \<Rightarrow> (Inl (CastError ''ObjectId''), d)
      | Some i \<Rightarrow>
          (case findOneAndDelete (\<lambda>b. b_id b = i \<and> b_user b = u_id u) d of
             (None, d1) \<Rightarrow> (Inr (failure 404 ''Book not found''), d1)
           | (Some deletedBook, d1) \<Rightarrow>
               (case logActivity env (u_id u) DELETE (title deletedBook)
                       (''Removed '' @ quoted (title deletedBook) @ '' by ''
                          @ author deletedBook @ '' from the library'')
                       (DeleteDetails (author deletedBook) (isbn deletedBook)
                          (year deletedBook)) d1 of
                  (Inl e, d2) \<Rightarrow> (Inl e, d2)
                | (Inr entry, d2) \<Rightarrow>
                    (Inr (ok 200
                       (Some (quoted (title deletedBook) @ '' has been removed from your library''))
                       None (Some (BookData deletedBook))), d2))))"

definition deleteBook :: "env \<Rightarrow> user \<Rightarrow> string \<Rightarrow> store \<Rightarrow> response \<times> store" where
  "deleteBook env u idParam d =
     (case deleteBookTry env u idParam d of
        (Inr r, d') \<Rightarrow> (r, d')
      | (Inl e, d') \<Rightarrow> deleteBookCatch e d')"

section \<open>Activity log routes\<close>

text \<open>
  \<open>GET /api/logs\<close>; \<open>parsed\<close> is what \<open>parseInt(req.query.limit)\<close> gave, and
  \<open>parsed || 50\<close> replaces \<open>NaN\<close> and 0 by 50.
\<close>

definition getLogs :: "env \<Rightarrow> user \<Rightarrow> jsnum \<Rightarrow> store \<Rightarrow> response \<times> store" where
  "getLogs env u parsed d =
     (let limit = (case parsed of NaN \<Rightarrow> 50 | Num n \<Rightarrow> if n = 0 then 50 else n);
          found = getUserHistory (u_id u) limit d
      in (ok 200 None (Some (length found)) (Some (LogsData found)), d))"

definition clearLogs :: "env \<Rightarrow> user \<Rightarrow> store \<Rightarrow> response \<times> store" where
  "clearLogs env u d =
     (ok 200 (Some ''Activity history cleared successfully'') None None,
      d\<lparr>logs := filter (\<lambda>e. l_user e \<noteq> u_id u) (logs d)\<rparr>)"


section \<open>Authentication routes\<close>

definition sendTokenResponse :: "env \<Rightarrow> user \<Rightarrow> nat \<Rightarrow> response" where
  "sendTokenResponse env u statusCode =
     \<lparr>status = statusCode, success = True, message = None, count = None, data = None,
      token = Some (jwtSign env (u_id u)),
      r_user = Some \<lparr>v_id = u_id u, v_name = name u, v_email = email u, v_theme = theme u,
                      v_createdAt = u_createdAt u\<rparr>\<rparr>"

definition loginCatch :: "error \<Rightarrow> store \<Rightarrow> response \<times> store" where
  "loginCatch e d =
     (failure 500 ''Login failed. Please try again.'',
      d\<lparr>console := console d @ [(''Login error:'', e)]\<rparr>)"

text \<open>
  \<open>POST /api/auth/login\<close>. \<open>email.toLowerCase()\<close> throws a TypeError on a value that is
  not a string. Mongoose casts the filter of \<open>User.findOne\<close> with the setters of the
  schema, and the \<open>email\<close> path has \<open>lowercase\<close> and \<open>trim\<close>: the stored email is
  compared with the lower-cased and trimmed one (\<open>toLowerCase\<close> changes no white space
  and changes nothing in a lower-cased string, so the two setters after the route's
  \<open>toLowerCase\<close> amount to \<open>trim\<close>). bcryptjs rejects a password that is not a
  string (\<open>Illegal arguments\<close>).
\<close>

definition loginTry :: "env \<Rightarrow> jsval \<Rightarrow> jsval \<Rightarrow> store \<Rightarrow> (error + response) \<times> store" where
  "loginTry env em pw d =
     (if falsy em \<or> falsy pw then (Inr (failure 400 ''Please provide email and password''), d)
      else
        (case em of
           JString e \<Rightarrow>
             (case find (\<lambda>u. email u = trim (toLowerCase e)) (users d) of
                None \<Rightarrow> (Inr (failure 401 ''Invalid email or password''), d)
              | Some u \<Rightarrow>
                  (case pw of
                     JString p \<Rightarrow>
                       if \<not> bcryptCompare env p (password u)
                       then (Inr (failure 401 ''Invalid email or password''), d)
                       else (Inr (sendTokenResponse env u 200), d)
                   | _ \<Rightarrow> (Inl IllegalArguments, d)))
         | _ \<Rightarrow> (Inl TypeError, d)))"

definition login :: "env \<Rightarrow> jsval \<Rightarrow> jsval \<Rightarrow> store \<Rightarrow> response \<times> store" where
  "login env em pw d =
     (case loginTry env em pw d of
        (Inr r, d') \<Rightarrow> (r, d')
      | (Inl e, d') \<Rightarrow> loginCatch e d')"

text \<open>Mongoose's cast of a value assigned to a String path; a number is cast to \<open>String(n)\<close>.\<close>

fun castString :: "jsval \<Rightarrow> string option" where
  "castString (JString s) = Some s"
| "castString (JNumber s) = Some s"
| "castString (JBool b) = Some (if b then ''true'' else ''false'')"
| "castString Undefined = None"
| "castString JNull = None"

definition validatePassword :: "string option \<Rightarrow> (string \<times> string) list" where
  "validatePassword p =
     (case p of
        None \<Rightarrow> [(''password'', ''Password is required'')]
      | Some s \<Rightarrow>
          if s = [] then [(''password'', ''Password is required'')]
          else if length s < 6 then [(''password'', ''Password must be at least 6 characters'')]
          else [])"

text \<open>
  \<open>user.save()\<close> in the reset route, on the user \<open>u\<close> the query loaded: the new password
  is validated, the \<open>pre('save')\<close> hook replaces it by its bcrypt hash, and one write
  stores the hash and removes both reset fields from the document of that \<open>_id\<close>. The
  paths that were loaded and not assigned (name, email, theme) passed validation when
  they were stored and are written back as they are.
\<close>

definition saveResetUser :: "env \<Rightarrow> user \<Rightarrow> jsval \<Rightarrow> store \<Rightarrow> error + store" where
  "saveResetUser env u pw d =
     (case validatePassword (castString pw) of
        e # es \<Rightarrow> Inl (ValidationError (e # es))
      | [] \<Rightarrow>
          (case castString pw of
             None \<Rightarrow> Inl (ValidationError [(''password'', ''Password is required'')])
           | Some p \<Rightarrow>
               let u' = u\<lparr>password := bcryptHash env p, resetPasswordToken := None,
                          resetPasswordExpire := None\<rparr>
               in Inr (d\<lparr>users := map (\<lambda>x. if u_id x = u_id u then u' else x) (users d)\<rparr>)))"

definition resetPasswordCatch :: "error \<Rightarrow> store \<Rightarrow> response \<times> store" where
  "resetPasswordCatch e d =
     (failure 500 ''Failed to reset password. Please try again.'',
      d\<lparr>console := console d @ [(''Reset password error:'', e)]\<rparr>)"

text \<open>The query of the reset route: the stored hash is the given one and the expiry is later than now.\<close>

definition validResetToken :: "env \<Rightarrow> string \<Rightarrow> user \<Rightarrow> bool" where
  "validResetToken env resetTokenHash u =
     (resetPasswordToken u = Some resetTokenHash
      \<and> (case resetPasswordExpire u of None \<Rightarrow> False | Some t \<Rightarrow> now env < t))"

definition resetPasswordTry ::
  "env \<Rightarrow> string \<Rightarrow> jsval \<Rightarrow> store \<Rightarrow> (error + response) \<times> store" where
  "resetPasswordTry env tokenParam pw d =
     (if falsy pw then (Inr (failure 400 ''Please provide a new password''), d)
      else if (case pw of JString p \<Rightarrow> length p < 6 | _ \<Rightarrow> False)
      then (Inr (failure 400 ''Password must be at least 6 characters long''), d)
      else
        (let resetTokenHash = sha256 env tokenParam
         in case find (validResetToken env resetTokenHash) (users d) of
              None \<Rightarrow> (Inr (failure 400 ''Invalid or expired reset token''), d)
            | Some u \<Rightarrow>
                (case saveResetUser env u pw d of
                   Inl e \<Rightarrow> (Inl e, d)
                 | Inr d1 \<Rightarrow>
                     (Inr (ok 200
                        (Some ''Password reset successful! You can now login with your new password.'')
                        None None), d1))))"

definition resetPassword :: "env \<Rightarrow> string \<Rightarrow> jsval \<Rightarrow> store \<Rightarrow> response \<times> store" where
  "resetPassword env tokenParam pw d =
     (case resetPasswordTry env tokenParam pw d of
        (Inr r, d') \<Rightarrow> (r, d')
      | (Inl e, d') \<Rightarrow> resetPasswordCatch e d')"

section \<open>The application\<close>

text \<open>
  The requests of the modelled routes. \<open>router.use(protect)\<close> puts \<open>protect\<close> before
  every book route, and both log routes name it; login and reset-password are public.
\<close>

datatype request =
    GetBooks
  | GetBook string
  | PostBook body
  | PutBook string body
  | DeleteBook string
  | GetLogs jsnum
  | ClearLogs
  | Login jsval jsval
  | ResetPassword string jsval

definition protected ::
  "env \<Rightarrow> string option \<Rightarrow> (user \<Rightarrow> store \<Rightarrow> response \<times> store) \<Rightarrow> store \<Rightarrow> response \<times> store" where
  "protected env authorization handler d =
     (case protect env authorization d of
        Inl rejection \<Rightarrow> (rejection, d)
      | Inr u \<Rightarrow> handler u d)"

fun app :: "env \<Rightarrow> string option \<Rightarrow> request \<Rightarrow> store \<Rightarrow> response \<times> store" where
  "app env a GetBooks d = protected env a (getBooks env) d"
| "app env a (GetBook i) d = protected env a (\<lambda>u. getBook env u i) d"
| "app env a (PostBook bd) d = protected env a (\<lambda>u. postBook env u bd) d"
| "app env a (PutBook i bd) d = protected env a (\<lambda>u. putBook env u i bd) d"
| "app env a (DeleteBook i) d = protected env a (\<lambda>u. deleteBook env u i) d"
| "app env a (GetLogs parsed) d = protected env a (\<lambda>u. getLogs env u parsed) d"
| "app env a ClearLogs d = protected env a (clearLogs env) d"
| "app env a (Login em pw) d = login env em pw d"
| "app env a (ResetPassword t pw) d = resetPassword env t pw d"



section \<open>A concrete server\<close>

text \<open>
  One environment and one state on which the handlers are run below: object identifiers
  are cast from strings of 24 hexadecimal digits, two users have signed tokens, and the
  first user owns one book.
\<close>

definition hexDigit :: "char \<Rightarrow> nat option" where
  "hexDigit c =
     (let n = (of_char c :: nat)
      in if 48 \<le> n \<and> n \<le> 57 then Some (n - 48)
         else if 97 \<le> n \<and> n \<le> 102 then Some (n - 87)
         else if 65 \<le> n \<and> n \<le> 70 then Some (n - 55)
         else None)"

fun hexValue :: "nat \<Rightarrow> string \<Rightarrow> nat option" where
  "hexValue acc [] = Some acc"
| "hexValue acc (c # cs) =
     (case hexDigit c of None \<Rightarrow> None | Some v \<Rightarrow> hexValue (acc * 16 + v) cs)"

definition hexObjectId :: "string \<Rightarrow> objectId option" where
  "hexObjectId s = (if length s = 24 then hexValue 0 s else None)"

definition env0 :: env where
  "env0 =
     \<lparr>now = 5000, maxYear = 2026, castObjectId = hexObjectId,
      jwtVerify = (\<lambda>t. if t = ''tokenA'' then Some 1 else if t = ''tokenB'' then Some 2
                       else if t = ''tokenC'' then Some 3 else None),
      jwtSign = (\<lambda>i. if i = 1 then ''tokenA'' else if i = 2 then ''tokenB'' else ''tokenC''),
      bcryptHash = (\<lambda>p. ''$2a$12$'' @ p),
      bcryptCompare = (\<lambda>p h. h = ''$2a$12$'' @ p),
      sha256 = (\<lambda>t. ''sha256:'' @ t),
      auditFails = False, userLookupFails = False\<rparr>"

definition alice :: user where
  "alice =
     \<lparr>u_id = 1, name = ''Alice'', email = ''alice@x.com'', password = ''$2a$12$secret1'',
      theme = ''dark'', resetPasswordToken = Some ''sha256:r4nd0m'',
      resetPasswordExpire = Some 6000, u_createdAt = 100\<rparr>"

definition bob :: user where
  "bob =
     \<lparr>u_id = 2, name = ''Bob'', email = ''bob@x.com'', password = ''$2a$12$hunter22'',
      theme = ''light'', resetPasswordToken = Some ''sha256:0ld'',
      resetPasswordExpire = Some 4000, u_createdAt = 200\<rparr>"

definition dune :: book where
  "dune =
     \<lparr>b_id = 16, b_user = 1, title = ''Dune'', author = ''Herbert'', isbn = ''9780441013593'',
      year = Num 1965, createdAt = 300, updatedAt = 300\<rparr>"

definition duneId :: string where
  "duneId = ''000000000000000000000010''"

definition store0 :: store where
  "store0 = \<lparr>users = [alice, bob], books = [dune], logs = [], nextId = 17, console = []\<rparr>"

definition duneBody :: body where
  "duneBody =
     \<lparr>body_title = JString ''Dune'', body_author = JString ''Herbert'',
      body_isbn = JString ''9780441013593'', body_year = JNumber ''1965'', body_user = None\<rparr>"

definition emptyBody :: body where
  "emptyBody =
     \<lparr>body_title = Undefined, body_author = Undefined, body_isbn = Undefined,
      body_year = Undefined, body_user = None\<rparr>"


definition emmaBody :: body where
  "emmaBody =
     \<lparr>body_title = JString ''  Emma '', body_author = JString ''Austen'',
      body_isbn = JString ''9780141439587'', body_year = JString ''1815'', body_user = None\<rparr>"

definition failingEnv :: env where
  "failingEnv = env0\<lparr>auditFails := True\<rparr>"

definition emma :: book where
  "emma =
     \<lparr>b_id = 17, b_user = 2, title = ''Emma'', author = ''Austen'', isbn = ''9780141439587'',
      year = Num 1815, createdAt = 5000, updatedAt = 5000\<rparr>"

section \<open>Scoping\<close>

text \<open>
  The vocabulary of the scoping claims. The documents a response carries belong to one
  account; and a request is scoped to an account when every book and every log entry
  that it added, changed or removed belongs to that account, the users are unchanged,
  and the response carries documents of that account only.
\<close>

definition ownedData :: "objectId \<Rightarrow> response \<Rightarrow> bool" where
  "ownedData uid r =
     (case data r of
        None \<Rightarrow> True
      | Some (BookData b) \<Rightarrow> b_user b = uid
      | Some (BooksData bs) \<Rightarrow> list_all (\<lambda>b. b_user b = uid) bs
      | Some (LogsData es) \<Rightarrow> list_all (\<lambda>e. l_user e = uid) es)"

definition scopedTo :: "objectId \<Rightarrow> store \<Rightarrow> response \<Rightarrow> store \<Rightarrow> bool" where
  "scopedTo uid d r d' =
     (list_all (\<lambda>b. b \<in> set (books d) \<or> b_user b = uid) (books d')
      \<and> list_all (\<lambda>b. b \<in> set (books d') \<or> b_user b = uid) (books d)
      \<and> list_all (\<lambda>e. e \<in> set (logs d) \<or> l_user e = uid) (logs d')
      \<and> list_all (\<lambda>e. e \<in> set (logs d') \<or> l_user e = uid) (logs d)
      \<and> users d' = users d
      \<and> ownedData uid r)"

section \<open>Facts about the primitives and the concrete server\<close>

lemma trim_examples:
  "trim ''  Emma '' = ''Emma''" "trim ''Austen'' = ''Austen''"
  "trim ''9780141439587'' = ''9780141439587''" "trim ''Dune'' = ''Dune''"
  "trim ''Herbert'' = ''Herbert''" "trim ''9780441013593'' = ''9780441013593''"
  "trim ''123'' = ''123''"
  by (simp_all add: trim_def isWhiteSpace_def)

lemma parse_examples:
  "parseIntString ''1815'' = Num 1815" "parseIntString ''1965'' = Num 1965"
  "parseIntString ''1966'' = Num 1966" "parseIntString ''999'' = Num 999"
  "parseIntString ''1e+21'' = Num 1" "parseIntString ''abc'' = NaN"
  by (simp_all add: parseIntString_def isWhiteSpace_def isDigit_def digitsValue_def Let_def)

lemma protected_Inr: "protect env a d = Inr u \<Longrightarrow> protected env a h d = h u d"
  by (simp add: protected_def)

lemma protected_Inl: "protect env a d = Inl r \<Longrightarrow> protected env a h d = (r, d)"
  by (simp add: protected_def)

lemma protect_alice: "protect env0 (Some ''Bearer tokenA'') store0 = Inr alice"
  by (simp add: protect_def findById_def bearerToken_def startsWith_def env0_def store0_def
      alice_def bob_def)

lemma protect_bob: "protect env0 (Some ''Bearer tokenB'') store0 = Inr bob"
  by (simp add: protect_def findById_def bearerToken_def startsWith_def env0_def store0_def
      alice_def bob_def)

text \<open>A request that passes the gate reaches its handler with the user the gate attached.\<close>

lemma app_reaches_handler:
  assumes "protect env a d = Inr u"
  shows "app env a GetBooks d = getBooks env u d"
    and "app env a (GetBook i) d = getBook env u i d"
    and "app env a (PostBook bd) d = postBook env u bd d"
    and "app env a (PutBook i bd) d = putBook env u i bd d"
    and "app env a (DeleteBook i) d = deleteBook env u i d"
    and "app env a (GetLogs n) d = getLogs env u n d"
    and "app env a ClearLogs d = clearLogs env u d"
  using assms by (simp_all add: protected_Inr)

text \<open>Bob adds a book.\<close>

lemma post_emma:
  "postBook env0 bob emmaBody store0 =
     (ok 201 (Some ''Book added successfully to your library'') None (Some (BookData emma)),
      store0\<lparr>books := [dune, emma],
        logs := [\<lparr>l_id = 18, l_user = 2, action = ADD,
           description = ''Added '' @ quoted ''Emma'' @ '' by Austen to the library'',
           bookTitle = ''Emma'', details = AddDetails 17 ''Austen'' ''9780141439587'' (Num 1815),
           timestamp = 5000\<rparr>],
        nextId := 19\<rparr>)"
  by (simp add: postBook_def postBookTry_def emmaBody_def store0_def bob_def dune_def
      trim_examples parse_examples newObjectId_def insertBook_def validateBook_def
      validateString_def env0_def logActivity_def validateActivity_def emma_def quoted_def
      Let_def)

section \<open>Malformed identifiers\<close>

text \<open>
  C10. A GET, PUT or DELETE on \<open>/books/:id\<close> by an authenticated user whose \<open>:id\<close> does
  not cast to an object identifier is answered 400 with the message "Invalid book ID
  format", which is not the 404 "Book not found" of an absent or unowned record, and no
  book is changed.
\<close>

theorem malformed_id_rejected:
  assumes "protect env a d = Inr u" and "castObjectId env idParam = None"
  shows "fst (app env a (GetBook idParam) d) = failure 400 ''Invalid book ID format''
       \<and> fst (app env a (PutBook idParam bd) d) = failure 400 ''Invalid book ID format''
       \<and> fst (app env a (DeleteBook idParam) d) = failure 400 ''Invalid book ID format''
       \<and> failure 400 ''Invalid book ID format'' \<noteq> failure 404 ''Book not found''
       \<and> books (snd (app env a (GetBook idParam) d)) = books d
       \<and> books (snd (app env a (PutBook idParam bd) d)) = books d
       \<and> books (snd (app env a (DeleteBook idParam) d)) = books d"
  using assms
  by (simp add: protected_Inr getBook_def getBookTry_def getBookCatch_def
      putBook_def putBookTry_def putBookCatch_def
      deleteBook_def deleteBookTry_def deleteBookCatch_def failure_def)

theorem malformed_id_rejected_witness:
  "protect env0 (Some ''Bearer tokenA'') store0 = Inr alice
   \<and> castObjectId env0 ''not-an-id'' = None
   \<and> fst (app env0 (Some ''Bearer tokenA'') (GetBook ''not-an-id'') store0)
       = failure 400 ''Invalid book ID format''
   \<and> fst (app env0 (Some ''Bearer tokenA'') (PutBook ''not-an-id'' duneBody) store0)
       = failure 400 ''Invalid book ID format''
   \<and> fst (app env0 (Some ''Bearer tokenA'') (DeleteBook ''not-an-id'') store0)
       = failure 400 ''Invalid book ID format''"
proof -
  have c: "castObjectId env0 ''not-an-id'' = None"
    by (simp add: env0_def hexObjectId_def)
  show ?thesis
    using malformed_id_rejected [OF protect_alice c, of duneBody] protect_alice c by simp
qed

section \<open>Records of another account\<close>

lemma find_by_id_other_owner:
  assumes "distinct (map b_id bs)" and "R \<in> set bs" and "uid \<noteq> b_user R"
  shows "find (\<lambda>b. b_id b = b_id R \<and> b_user b = uid) bs = None"
proof -
  have "\<not> (\<exists>b\<in>set bs. b_id b = b_id R \<and> b_user b = uid)"
  proof
    assume "\<exists>b\<in>set bs. b_id b = b_id R \<and> b_user b = uid"
    then obtain b where b: "b \<in> set bs" "b_id b = b_id R" "b_user b = uid" by blast
    from assms(1) b(1) assms(2) b(2) have "b = R"
      by (meson distinct_map inj_onD)
    with b(3) assms(3) show False by simp
  qed
  then show ?thesis by (simp add: find_None_iff)
qed

lemma find_by_id_absent:
  assumes "j \<notin> b_id ` set bs"
  shows "find (\<lambda>b. b_id b = j \<and> P b) bs = None"
  using assms by (auto simp: find_None_iff)

text \<open>
  C2. Object identifiers are the primary key of the collection, so they are distinct. For a
  book \<open>R\<close> of account A and a user B who is not A, GET and DELETE of \<open>R\<close>'s identifier by
  B are answered 404 "Book not found" and leave the whole state as it was (so \<open>R\<close> is
  unchanged); the answers are the very answers B gets for an identifier that is well
  formed and absent from the collection.
\<close>

theorem other_account_not_found:
  assumes "distinct (map b_id (books d))"
    and "R \<in> set (books d)"
    and "u_id uB \<noteq> b_user R"
    and "castObjectId env idR = Some (b_id R)"
    and "castObjectId env idAbsent = Some j"
    and "j \<notin> b_id ` set (books d)"
  shows "getBook env uB idR d = (failure 404 ''Book not found'', d)
       \<and> deleteBook env uB idR d = (failure 404 ''Book not found'', d)
       \<and> getBook env uB idAbsent d = getBook env uB idR d
       \<and> deleteBook env uB idAbsent d = deleteBook env uB idR d"
proof -
  have own: "find (\<lambda>b. b_id b = b_id R \<and> b_user b = u_id uB) (books d) = None"
    using assms(1-3) by (rule find_by_id_other_owner)
  have absent: "find (\<lambda>b. b_id b = j \<and> b_user b = u_id uB) (books d) = None"
    using assms(6) by (rule find_by_id_absent)
  have g1: "getBook env uB idR d = (failure 404 ''Book not found'', d)"
    using assms(4) own by (simp add: getBook_def getBookTry_def)
  have g2: "getBook env uB idAbsent d = (failure 404 ''Book not found'', d)"
    using assms(5) absent by (simp add: getBook_def getBookTry_def)
  have d1: "deleteBook env uB idR d = (failure 404 ''Book not found'', d)"
    using assms(4) own by (simp add: deleteBook_def deleteBookTry_def findOneAndDelete_def)
  have d2: "deleteBook env uB idAbsent d = (failure 404 ''Book not found'', d)"
    using assms(5) absent by (simp add: deleteBook_def deleteBookTry_def findOneAndDelete_def)
  show ?thesis using g1 g2 d1 d2 by simp
qed

theorem other_account_not_found_witness:
  "dune \<in> set (books store0) \<and> u_id bob \<noteq> b_user dune
   \<and> getBook env0 bob duneId store0 = (failure 404 ''Book not found'', store0)
   \<and> deleteBook env0 bob duneId store0 = (failure 404 ''Book not found'', store0)
   \<and> getBook env0 bob ''0000000000000000000000ff'' store0 = getBook env0 bob duneId store0
   \<and> deleteBook env0 bob ''0000000000000000000000ff'' store0 = deleteBook env0 bob duneId store0"
proof -
  have h1: "distinct (map b_id (books store0))" by (simp add: store0_def)
  have h2: "dune \<in> set (books store0)" by (simp add: store0_def)
  have h3: "u_id bob \<noteq> b_user dune" by (simp add: bob_def dune_def)
  have h4: "castObjectId env0 duneId = Some (b_id dune)"
    by (simp add: env0_def hexObjectId_def duneId_def dune_def hexDigit_def)
  have h5: "castObjectId env0 ''0000000000000000000000ff'' = Some 255"
    by (simp add: env0_def hexObjectId_def hexDigit_def)
  have h6: "255 \<notin> b_id ` set (books store0)" by (simp add: store0_def dune_def)
  show ?thesis
    using other_account_not_found [OF h1 h2 h3 h4 h5 h6] h2 h3 by simp
qed

section \<open>Login failures\<close>

text \<open>
  The setters of the \<open>email\<close> path on the lower-cased email of the login route: in
  whichever order \<open>lowercase\<close> and \<open>trim\<close> are applied, the result is the trimmed
  lower-cased email.
\<close>

lemma isWhiteSpace_code:
  "isWhiteSpace c \<longleftrightarrow> (of_char c :: nat) \<in> {9, 10, 11, 12, 13, 32, 160}"
proof -
  have e: "(c = d) = ((of_char c :: nat) = of_char d)" for d :: char
    by (simp add: of_char_eq_iff)
  show ?thesis unfolding isWhiteSpace_def e by simp
qed

lemma lower_case_char:
  fixes c :: char
  defines "n \<equiv> (of_char c :: nat)"
  assumes "(65 \<le> n \<and> n \<le> 90) \<or> (192 \<le> n \<and> n \<le> 222 \<and> n \<noteq> 215)"
  shows "(of_char (char_of (n + 32) :: char) :: nat) = n + 32"
  using assms by (auto simp: of_char_of)

lemma toLowerCase_idem: "toLowerCase (toLowerCase s) = toLowerCase s"
proof -
  have "(let m = (of_char (char_of ((of_char c :: nat) + 32) :: char) :: nat)
         in if (65 \<le> m \<and> m \<le> 90) \<or> (192 \<le> m \<and> m \<le> 222 \<and> m \<noteq> 215)
            then char_of (m + 32) else (char_of ((of_char c :: nat) + 32) :: char))
        = char_of ((of_char c :: nat) + 32)"
    if "(65 \<le> (of_char c :: nat) \<and> (of_char c :: nat) \<le> 90)
        \<or> (192 \<le> (of_char c :: nat) \<and> (of_char c :: nat) \<le> 222 \<and> (of_char c :: nat) \<noteq> 215)"
    for c :: char
    using lower_case_char [OF that] that by (auto simp: Let_def)
  then show ?thesis
    by (auto simp: toLowerCase_def Let_def)
qed

lemma toLowerCase_white:
  "isWhiteSpace (let n = (of_char c :: nat)
                 in if (65 \<le> n \<and> n \<le> 90) \<or> (192 \<le> n \<and> n \<le> 222 \<and> n \<noteq> 215)
                    then char_of (n + 32) else c)
     = isWhiteSpace c"
proof (cases "(65 \<le> (of_char c :: nat) \<and> (of_char c :: nat) \<le> 90)
        \<or> (192 \<le> (of_char c :: nat) \<and> (of_char c :: nat) \<le> 222 \<and> (of_char c :: nat) \<noteq> 215)")
  case True
  from lower_case_char [OF True] True show ?thesis
    by (auto simp: isWhiteSpace_code Let_def)
next
  case False
  then show ?thesis by (auto simp: Let_def)
qed

lemma trim_toLowerCase: "trim (toLowerCase s) = toLowerCase (trim s)"
proof -
  let ?f = "\<lambda>c. let n = (of_char c :: nat)
              in if (65 \<le> n \<and> n \<le> 90) \<or> (192 \<le> n \<and> n \<le> 222 \<and> n \<noteq> 215)
                 then char_of (n + 32) else c"
  have w: "isWhiteSpace \<circ> ?f = isWhiteSpace"
    using toLowerCase_white by (auto simp: fun_eq_iff)
  have h: "dropWhile isWhiteSpace (map ?f xs) = map ?f (dropWhile isWhiteSpace xs)" for xs
    by (simp add: dropWhile_map w)
  show ?thesis
    by (simp add: trim_def toLowerCase_def h rev_map)
qed

lemma email_setters:
  "trim (toLowerCase (toLowerCase e)) = trim (toLowerCase e)"
  "toLowerCase (trim (toLowerCase e)) = trim (toLowerCase e)"
  by (simp_all add: toLowerCase_idem trim_toLowerCase)

text \<open>
  A login whose password is a string. For an email no account has, and for the email of
  an account whose stored hash does not match the password, the route sends the same
  response, 401 with the message "Invalid email or password", and changes nothing.
\<close>

lemma login_failure_string_password:
  assumes "e1 \<noteq> []" and "p1 \<noteq> []"
    and "find (\<lambda>u. email u = trim (toLowerCase e1)) (users d1) = None"
    and "e2 \<noteq> []" and "p2 \<noteq> []"
    and "find (\<lambda>u. email u = trim (toLowerCase e2)) (users d2) = Some u"
    and "\<not> bcryptCompare env2 p2 (password u)"
  shows "login env1 (JString e1) (JString p1) d1 = (failure 401 ''Invalid email or password'', d1)
       \<and> login env2 (JString e2) (JString p2) d2 = (failure 401 ''Invalid email or password'', d2)"
  using assms by (simp add: login_def loginTry_def)

text \<open>
  A login whose password is not a string. The route tests the password for truthiness
  only. Without an account the answer is the 401 above; with an account, whatever its
  password, bcryptjs throws and the route answers 500.
\<close>

lemma login_failure_other_password:
  assumes "e \<noteq> []" and "\<not> falsy pw" and "\<forall>p. pw \<noteq> JString p"
  shows "login env (JString e) pw d =
           (case find (\<lambda>u. email u = trim (toLowerCase e)) (users d) of
              None \<Rightarrow> (failure 401 ''Invalid email or password'', d)
            | Some u \<Rightarrow>
                (failure 500 ''Login failed. Please try again.'',
                 d\<lparr>console := console d @ [(''Login error:'', IllegalArguments)]\<rparr>))"
  using assms
  by (cases pw) (simp_all add: login_def loginTry_def loginCatch_def split: option.splits)

lemma login_lookups:
  "find (\<lambda>u. email u = trim (toLowerCase ''carol@x.com'')) (users store0) = None"
  "find (\<lambda>u. email u = trim (toLowerCase ''alice@x.com'')) (users store0) = Some alice"
  "find (\<lambda>u. email u = trim (toLowerCase '' Alice@X.com '')) (users store0) = Some alice"
  by code_simp+

text \<open>
  C7, evaluated. The password 123456 is sent as a JSON number, to a server where Alice
  has an account and Carol has none. For Carol's email the route answers 401 "Invalid
  email or password". For Alice's email the comparison of bcryptjs throws on the
  number, and the route answers 500 "Login failed. Please try again." and writes the
  error to the console. The two failures differ, so the response tells whether the
  email has an account. With the string \<open>''123456''\<close>, which is not Alice's password,
  the answer for Alice's email is the 401 of Carol's.
\<close>

theorem login_failure_reveals_account:
  "login env0 (JString ''carol@x.com'') (JNumber ''123456'') store0
     = (failure 401 ''Invalid email or password'', store0)
   \<and> login env0 (JString ''alice@x.com'') (JNumber ''123456'') store0
     = (failure 500 ''Login failed. Please try again.'',
        store0\<lparr>console := [(''Login error:'', IllegalArguments)]\<rparr>)
   \<and> login env0 (JString ''alice@x.com'') (JString ''123456'') store0
     = (failure 401 ''Invalid email or password'', store0)
   \<and> failure 500 ''Login failed. Please try again.''
       \<noteq> failure 401 ''Invalid email or password''"
proof (intro conjI)
  show "login env0 (JString ''carol@x.com'') (JNumber ''123456'') store0
     = (failure 401 ''Invalid email or password'', store0)"
    by (simp add: login_def loginTry_def login_lookups)
  have c: "console store0 = []" by (simp add: store0_def)
  show "login env0 (JString ''alice@x.com'') (JNumber ''123456'') store0
     = (failure 500 ''Login failed. Please try again.'',
        store0\<lparr>console := [(''Login error:'', IllegalArguments)]\<rparr>)"
    by (simp add: login_def loginTry_def login_lookups loginCatch_def c)
  have "\<not> bcryptCompare env0 ''123456'' (password alice)"
    by (simp add: env0_def alice_def)
  then show "login env0 (JString ''alice@x.com'') (JString ''123456'') store0
     = (failure 401 ''Invalid email or password'', store0)"
    by (simp add: login_def loginTry_def login_lookups)
  show "failure 500 ''Login failed. Please try again.''
       \<noteq> failure 401 ''Invalid email or password''"
    by (simp add: failure_def)
qed
section \<open>Effects of the model operations\<close>

lemma logActivity_effect:
  assumes "logActivity env uid a bt desc det d = (x, d')"
  shows "books d' = books d \<and> users d' = users d \<and> console d' = console d
       \<and> nextId d' = Suc (nextId d)
       \<and> (case x of
             Inl e \<Rightarrow> logs d' = logs d
           | Inr e \<Rightarrow> logs d' = logs d @ [e] \<and> action e = a \<and> l_user e = uid
                        \<and> bookTitle e = bt \<and> \<not> auditFails env)"
  using assms
  by (auto simp: logActivity_def newObjectId_def Let_def split: list.splits if_splits)

lemma logActivity_fails:
  assumes "auditFails env" and "bt \<noteq> []" and "desc \<noteq> []"
  shows "logActivity env uid a bt desc det d = (Inl StorageError, d\<lparr>nextId := Suc (nextId d)\<rparr>)"
  using assms by (simp add: logActivity_def newObjectId_def validateActivity_def)

lemma logActivity_works:
  assumes "\<not> auditFails env" and "bt \<noteq> []" and "desc \<noteq> []"
  shows "\<exists>e. logActivity env uid a bt desc det d
            = (Inr e, d\<lparr>nextId := Suc (nextId d), logs := logs d @ [e]\<rparr>)"
  using assms by (simp add: logActivity_def newObjectId_def validateActivity_def Let_def)

lemma validateString_Nil:
  "validateString path v r mn mnMsg mx mxMsg = [] \<longleftrightarrow> v \<noteq> [] \<and> mn \<le> length v \<and> length v \<le> mx"
  by (auto simp: validateString_def)

lemma validateBook_Nil:
  "validateBook env b = [] \<longleftrightarrow>
     title b \<noteq> [] \<and> length (title b) \<le> 200
   \<and> author b \<noteq> [] \<and> length (author b) \<le> 100
   \<and> 10 \<le> length (isbn b) \<and> length (isbn b) \<le> 17
   \<and> (\<exists>n. year b = Num n \<and> 1000 \<le> n \<and> n \<le> maxYear env)"
  by (cases "year b") (auto simp: validateBook_def validateString_Nil Suc_le_eq)

lemma insertBook_effect:
  assumes "insertBook env b d = Inr (b', d')"
  shows "b' = b\<lparr>createdAt := now env, updatedAt := now env\<rparr>
       \<and> d' = d\<lparr>books := books d @ [b']\<rparr>
       \<and> validateBook env b = []
       \<and> find (\<lambda>x. isbn x = isbn b) (books d) = None"
  using assms by (auto simp: insertBook_def Let_def split: list.splits if_splits)

lemma updateBook_effect:
  assumes "updateBook env old b d = Inr (b', d')"
  shows "validateBook env b = []
       \<and> (if b = old then b' = b \<and> d' = d
           else b' = b\<lparr>updatedAt := now env\<rparr>
              \<and> d' = d\<lparr>books := map (\<lambda>x. if b_id x = b_id b then b' else x) (books d)\<rparr>)"
  using assms by (auto simp: updateBook_def Let_def split: list.splits if_splits)

lemma trimValue_Inr: "trimValue v = Inr s \<longleftrightarrow> (\<exists>t. v = JString t \<and> s = trim t)"
  by (cases v) auto

lemma postBookTry_effect:
  assumes "postBookTry env u bd d = (x, d')"
  shows "users d' = users d \<and> console d' = console d
       \<and> ((books d' = books d \<and> logs d' = logs d \<and> (\<forall>r. x = Inr r \<longrightarrow> \<not> success r))
          \<or> (\<exists>b. books d' = books d @ [b] \<and> b_user b = u_id u
                \<and> b_id b = nextId d
                \<and> validateBook env b = []
                \<and> trimValue (body_title bd) = Inr (title b)
                \<and> trimValue (body_author bd) = Inr (author b)
                \<and> trimValue (body_isbn bd) = Inr (isbn b)
                \<and> year b = parseInt (body_year bd)
                \<and> find (\<lambda>x. isbn x = isbn b) (books d) = None
                \<and> ((x = Inl StorageError \<and> auditFails env \<and> logs d' = logs d)
                   \<or> (\<exists>e. x = Inr (ok 201 (Some ''Book added successfully to your library'')
                                       None (Some (BookData b)))
                         \<and> logs d' = logs d @ [e] \<and> action e = ADD \<and> l_user e = u_id u
                         \<and> bookTitle e = title b
                         \<and> \<not> auditFails env))))"
proof (cases "falsy (body_title bd) \<or> falsy (body_author bd) \<or> falsy (body_isbn bd)
         \<or> falsy (body_year bd)")
  case True
  then show ?thesis using assms by (auto simp: postBookTry_def failure_def)
next
  case False
  note truthy = this
  show ?thesis
  proof (cases "trimValue (body_isbn bd)")
    case (Inl e)
    then show ?thesis using assms truthy by (auto simp: postBookTry_def)
  next
    case (Inr i)
    note i = this
    show ?thesis
    proof (cases "find (\<lambda>b. isbn b = i \<and> b_user b = u_id u) (books d)")
      case (Some existingBook)
      then show ?thesis using assms truthy i by (auto simp: postBookTry_def failure_def)
    next
      case None
      note none = this
      show ?thesis
      proof (cases "trimValue (body_title bd)")
        case (Inl e)
        then show ?thesis using assms truthy i none by (auto simp: postBookTry_def)
      next
        case (Inr t)
        note t = this
        show ?thesis
        proof (cases "trimValue (body_author bd)")
          case (Inl e)
          then show ?thesis using assms truthy i none t by (auto simp: postBookTry_def)
        next
          case (Inr a)
          note a = this
          define newBook where "newBook = \<lparr>b_id = nextId d, b_user = u_id u, title = t, author = a,
             isbn = i, year = parseInt (body_year bd), createdAt = now env, updatedAt = now env\<rparr>"
          define d1 where "d1 = d\<lparr>nextId := Suc (nextId d)\<rparr>"
          show ?thesis
          proof (cases "insertBook env newBook d1")
            case (Inl e)
            then show ?thesis using assms truthy i none t a
              by (auto simp: postBookTry_def newObjectId_def newBook_def d1_def)
          next
            case (Inr p)
            obtain savedBook d2 where p: "p = (savedBook, d2)" by (cases p)
            from insertBook_effect [OF Inr [unfolded p]]
            have sb: "savedBook = newBook\<lparr>createdAt := now env, updatedAt := now env\<rparr>"
              and d2: "d2 = d1\<lparr>books := books d1 @ [savedBook]\<rparr>"
              and valid: "validateBook env newBook = []"
              and fresh: "find (\<lambda>x. isbn x = isbn newBook) (books d1) = None"
              by simp_all
            have valid': "validateBook env savedBook = []"
              using valid by (simp add: sb validateBook_def)
            have tne: "title savedBook \<noteq> []" using valid' by (simp add: validateBook_Nil)
            let ?desc = "''Added '' @ quoted (title savedBook) @ '' by ''
                                               @ author savedBook @ '' to the library''"
            let ?det = "AddDetails (b_id savedBook) (author savedBook)
                                               (isbn savedBook) (year savedBook)"
            have eq: "postBookTry env u bd d =
                (case logActivity env (u_id u) ADD (title savedBook) ?desc ?det d2 of
                   (Inl e, d3) \<Rightarrow> (Inl e, d3)
                 | (Inr entry, d3) \<Rightarrow>
                     (Inr (ok 201 (Some ''Book added successfully to your library'')
                        None (Some (BookData savedBook))), d3))"
              using truthy i none t a Inr p
              by (simp add: postBookTry_def newObjectId_def newBook_def [symmetric]
                  d1_def [symmetric])
            show ?thesis
            proof (cases "auditFails env")
              case True
              have "logActivity env (u_id u) ADD (title savedBook) ?desc ?det d2
                  = (Inl StorageError, d2\<lparr>nextId := Suc (nextId d2)\<rparr>)"
                by (rule logActivity_fails [OF True tne]) simp
              then show ?thesis using assms eq True valid' fresh i t a
                by (auto simp: d2 d1_def sb newBook_def)
            next
              case False
              obtain e where e: "logActivity env (u_id u) ADD (title savedBook) ?desc ?det d2
                  = (Inr e, d2\<lparr>nextId := Suc (nextId d2), logs := logs d2 @ [e]\<rparr>)"
                using logActivity_works [OF False tne, of ?desc "u_id u" ADD ?det d2] by auto
              from logActivity_effect [OF e]
              have "action e = ADD" "l_user e = u_id u" "bookTitle e = title savedBook" by simp_all
              then show ?thesis using assms eq e False valid' fresh i t a
                by (auto simp: d2 d1_def sb newBook_def)
            qed
          qed
        qed
      qed
    qed
  qed
qed

lemma assignTrimmed_effect:
  assumes "assignTrimmed v f b = Inr b'"
  shows "if falsy v then b' = b else (\<exists>t. v = JString t \<and> b' = f (trim t) b)"
  using assms by (auto simp: assignTrimmed_def trimValue_Inr split: if_splits sum.splits)

text \<open>The document \<open>PUT\<close> assigns to: the loaded book with the truthy body fields written.\<close>

lemma putBookTry_effect:
  assumes "putBookTry env u idParam bd d = (x, d')"
  shows "users d' = users d \<and> console d' = console d
       \<and> ((books d' = books d \<and> logs d' = logs d \<and> (\<forall>r. x = Inr r \<longrightarrow> \<not> success r))
          \<or> (\<exists>i old b b'.
                castObjectId env idParam = Some i
              \<and> find (\<lambda>b. b_id b = i \<and> b_user b = u_id u) (books d) = Some old
              \<and> validateBook env b = []
              \<and> b_id b = b_id old \<and> b_user b = b_user old \<and> createdAt b = createdAt old
              \<and> updatedAt b = updatedAt old
              \<and> (falsy (body_title bd) \<longrightarrow> title b = title old)
              \<and> (falsy (body_author bd) \<longrightarrow> author b = author old)
              \<and> (falsy (body_isbn bd) \<longrightarrow> isbn b = isbn old)
              \<and> (falsy (body_year bd) \<longrightarrow> year b = year old)
              \<and> (\<forall>t. body_title bd = JString t \<and> t \<noteq> [] \<longrightarrow> title b = trim t)
              \<and> (\<forall>t. body_author bd = JString t \<and> t \<noteq> [] \<longrightarrow> author b = trim t)
              \<and> (\<forall>t. body_isbn bd = JString t \<and> t \<noteq> [] \<longrightarrow> isbn b = trim t)
              \<and> (\<not> falsy (body_year bd) \<longrightarrow> year b = parseInt (body_year bd))
              \<and> (if b = old then b' = old \<and> books d' = books d
                  else b' = b\<lparr>updatedAt := now env\<rparr>
                     \<and> books d' = map (\<lambda>x. if b_id x = b_id old then b' else x) (books d))
              \<and> ((x = Inl StorageError \<and> auditFails env \<and> logs d' = logs d)
                 \<or> (\<exists>e. x = Inr (ok 200 (Some ''Book updated successfully'') None
                                     (Some (BookData b')))
                       \<and> logs d' = logs d @ [e] \<and> action e = EDIT \<and> l_user e = u_id u
                       \<and> bookTitle e = title b'
                       \<and> \<not> auditFails env))))"
proof (cases "castObjectId env idParam")
  case None
  then show ?thesis using assms by (auto simp: putBookTry_def)
next
  case (Some i)
  note i = this
  show ?thesis
  proof (cases "find (\<lambda>b. b_id b = i \<and> b_user b = u_id u) (books d)")
    case None
    then show ?thesis using assms i by (auto simp: putBookTry_def failure_def)
  next
    case (Some old)
    note old = this
    show ?thesis
    proof (cases "assignTrimmed (body_title bd) (\<lambda>s b. b\<lparr>title := s\<rparr>) old")
      case (Inl e)
      then show ?thesis using assms i old by (auto simp: putBookTry_def)
    next
      case (Inr b1)
      note b1 = this
      show ?thesis
      proof (cases "assignTrimmed (body_author bd) (\<lambda>s b. b\<lparr>author := s\<rparr>) b1")
        case (Inl e)
        then show ?thesis using assms i old b1 by (auto simp: putBookTry_def)
      next
        case (Inr b2)
        note b2 = this
        show ?thesis
        proof (cases "assignTrimmed (body_isbn bd) (\<lambda>s b. b\<lparr>isbn := s\<rparr>) b2")
          case (Inl e)
          then show ?thesis using assms i old b1 b2 by (auto simp: putBookTry_def)
        next
          case (Inr b3)
          note b3 = this
          define b4 where "b4 = (if falsy (body_year bd) then b3
                                         else b3\<lparr>year := parseInt (body_year bd)\<rparr>)"
          show ?thesis
          proof (cases "updateBook env old b4 d")
            case (Inl e)
            then show ?thesis using assms i old b1 b2 b3
              by (auto simp: putBookTry_def b4_def [symmetric])
          next
            case (Inr p)
            obtain updatedBook d1 where p: "p = (updatedBook, d1)" by (cases p)
            note ub = updateBook_effect [OF Inr [unfolded p]]
            have valid: "validateBook env b4 = []" using ub by simp
            have tne: "title b4 \<noteq> []" using valid by (simp add: validateBook_Nil)
            have tne': "title updatedBook \<noteq> []" using ub tne by (auto split: if_splits)
            let ?desc = "''Updated '' @ quoted (title old) @ '' book details''"
            let ?det = "EditDetails (b_id updatedBook) bd"
            have eq: "putBookTry env u idParam bd d =
                (case logActivity env (u_id u) EDIT (title updatedBook) ?desc ?det d1 of
                   (Inl e, d2) \<Rightarrow> (Inl e, d2)
                 | (Inr entry, d2) \<Rightarrow>
                     (Inr (ok 200 (Some ''Book updated successfully'') None
                        (Some (BookData updatedBook))), d2))"
              using i old b1 b2 b3 Inr p
              by (simp add: putBookTry_def b4_def [symmetric])
            note a1 = assignTrimmed_effect [OF b1]
            note a2 = assignTrimmed_effect [OF b2]
            note a3 = assignTrimmed_effect [OF b3]
            have fields: "b_id b4 = b_id old \<and> b_user b4 = b_user old
                \<and> createdAt b4 = createdAt old \<and> updatedAt b4 = updatedAt old
                \<and> (falsy (body_title bd) \<longrightarrow> title b4 = title old)
                \<and> (falsy (body_author bd) \<longrightarrow> author b4 = author old)
                \<and> (falsy (body_isbn bd) \<longrightarrow> isbn b4 = isbn old)
                \<and> (falsy (body_year bd) \<longrightarrow> year b4 = year old)
                \<and> (\<forall>t. body_title bd = JString t \<and> t \<noteq> [] \<longrightarrow> title b4 = trim t)
                \<and> (\<forall>t. body_author bd = JString t \<and> t \<noteq> [] \<longrightarrow> author b4 = trim t)
                \<and> (\<forall>t. body_isbn bd = JString t \<and> t \<noteq> [] \<longrightarrow> isbn b4 = trim t)
                \<and> (\<not> falsy (body_year bd) \<longrightarrow> year b4 = parseInt (body_year bd))"
              using a1 a2 a3 by (auto simp: b4_def split: if_splits)
            have books1: "if b4 = old then updatedBook = old \<and> books d1 = books d
                  else updatedBook = b4\<lparr>updatedAt := now env\<rparr>
                     \<and> books d1 = map (\<lambda>x. if b_id x = b_id old then updatedBook else x) (books d)"
              using ub fields by (auto split: if_splits)
            have rest1: "users d1 = users d \<and> console d1 = console d \<and> logs d1 = logs d"
              using ub by (auto split: if_splits)
            show ?thesis
            proof (cases "auditFails env")
              case True
              have "logActivity env (u_id u) EDIT (title updatedBook) ?desc ?det d1
                  = (Inl StorageError, d1\<lparr>nextId := Suc (nextId d1)\<rparr>)"
                by (rule logActivity_fails [OF True tne']) simp
              then have x: "x = Inl StorageError" and d': "d' = d1\<lparr>nextId := Suc (nextId d1)\<rparr>"
                using assms eq by auto
              show ?thesis
                apply (intro conjI)
                  apply (simp add: d' rest1)
                 apply (simp add: d' rest1)
                apply (rule disjI2)
                apply (rule exI [of _ i], rule exI [of _ old], rule exI [of _ b4],
                    rule exI [of _ updatedBook])
                using i old valid fields books1 True x d' rest1
                apply (auto split: if_splits)
                done
            next
              case False
              obtain e where e: "logActivity env (u_id u) EDIT (title updatedBook) ?desc ?det d1
                  = (Inr e, d1\<lparr>nextId := Suc (nextId d1), logs := logs d1 @ [e]\<rparr>)"
                using logActivity_works [OF False tne', of ?desc "u_id u" EDIT ?det d1] by auto
              from logActivity_effect [OF e]
              have ee: "action e = EDIT" "l_user e = u_id u" "bookTitle e = title updatedBook"
                by simp_all
              have x: "x = Inr (ok 200 (Some ''Book updated successfully'') None
                        (Some (BookData updatedBook)))"
                and d': "d' = d1\<lparr>nextId := Suc (nextId d1), logs := logs d1 @ [e]\<rparr>"
                using assms eq e by auto
              show ?thesis
                apply (intro conjI)
                  apply (simp add: d' rest1)
                 apply (simp add: d' rest1)
                apply (rule disjI2)
                apply (rule exI [of _ i], rule exI [of _ old], rule exI [of _ b4],
                    rule exI [of _ updatedBook])
                using i old valid fields books1 False x d' rest1 ee
                apply (auto split: if_splits)
                done
            qed
          qed
        qed
      qed
    qed
  qed
qed

lemma deleteBookTry_effect:
  assumes "deleteBookTry env u idParam d = (x, d')"
  shows "users d' = users d \<and> console d' = console d
       \<and> ((books d' = books d \<and> logs d' = logs d \<and> (\<forall>r. x = Inr r \<longrightarrow> \<not> success r))
          \<or> (\<exists>i b.
                castObjectId env idParam = Some i
              \<and> find (\<lambda>b. b_id b = i \<and> b_user b = u_id u) (books d) = Some b
              \<and> books d' = remove1 b (books d)
              \<and> ((\<exists>e. x = Inl e \<and> (auditFails env \<or> title b = []) \<and> logs d' = logs d)
                 \<or> (\<exists>e. x = Inr (ok 200
                                (Some (quoted (title b) @ '' has been removed from your library''))
                                None (Some (BookData b)))
                       \<and> logs d' = logs d @ [e] \<and> action e = DELETE \<and> l_user e = u_id u
                       \<and> bookTitle e = title b
                       \<and> \<not> auditFails env))))"
proof (cases "castObjectId env idParam")
  case None
  then show ?thesis using assms by (auto simp: deleteBookTry_def)
next
  case (Some i)
  note i = this
  show ?thesis
  proof (cases "find (\<lambda>b. b_id b = i \<and> b_user b = u_id u) (books d)")
    case None
    then show ?thesis using assms i
      by (auto simp: deleteBookTry_def findOneAndDelete_def failure_def)
  next
    case (Some b)
    define d1 where "d1 = d\<lparr>books := remove1 b (books d)\<rparr>"
    let ?desc = "''Removed '' @ quoted (title b) @ '' by '' @ author b @ '' from the library''"
    let ?det = "DeleteDetails (author b) (isbn b) (year b)"
    obtain y d2 where l: "logActivity env (u_id u) DELETE (title b) ?desc ?det d1 = (y, d2)"
      by (cases "logActivity env (u_id u) DELETE (title b) ?desc ?det d1")
    note le = logActivity_effect [OF l]
    have eq: "deleteBookTry env u idParam d =
        (case y of
           Inl e \<Rightarrow> (Inl e, d2)
         | Inr entry \<Rightarrow>
             (Inr (ok 200 (Some (quoted (title b) @ '' has been removed from your library''))
                None (Some (BookData b))), d2))"
      using i Some l
      by (simp add: deleteBookTry_def findOneAndDelete_def d1_def [symmetric] split: sum.splits)
    show ?thesis
    proof (cases y)
      case (Inl e)
      have "auditFails env \<or> title b = []"
      proof (rule ccontr)
        assume "\<not> (auditFails env \<or> title b = [])"
        then have "\<not> auditFails env" "title b \<noteq> []" by simp_all
        from logActivity_works [OF this, of ?desc "u_id u" DELETE ?det d1] l Inl
        show False by auto
      qed
      then show ?thesis using assms eq Inl le i Some
        by (auto simp: d1_def)
    next
      case (Inr e)
      then show ?thesis using assms eq le i Some
        by (auto simp: d1_def)
    qed
  qed
qed

lemma catch_effects:
  "users (snd (getBookCatch e d)) = users d \<and> books (snd (getBookCatch e d)) = books d
   \<and> logs (snd (getBookCatch e d)) = logs d \<and> \<not> success (fst (getBookCatch e d))"
  "users (snd (postBookCatch e d)) = users d \<and> books (snd (postBookCatch e d)) = books d
   \<and> logs (snd (postBookCatch e d)) = logs d \<and> \<not> success (fst (postBookCatch e d))"
  "users (snd (putBookCatch e d)) = users d \<and> books (snd (putBookCatch e d)) = books d
   \<and> logs (snd (putBookCatch e d)) = logs d \<and> \<not> success (fst (putBookCatch e d))"
  "users (snd (deleteBookCatch e d)) = users d \<and> books (snd (deleteBookCatch e d)) = books d
   \<and> logs (snd (deleteBookCatch e d)) = logs d \<and> \<not> success (fst (deleteBookCatch e d))"
  by (simp_all add: getBookCatch_def postBookCatch_def putBookCatch_def deleteBookCatch_def
      Let_def failure_def)

lemma postBook_logs:
  assumes "postBook env u bd d = (r, d')"
  shows "if success r
         then \<exists>e. logs d' = logs d @ [e] \<and> action e = ADD \<and> l_user e = u_id u
         else logs d' = logs d"
proof -
  obtain x d1 where t: "postBookTry env u bd d = (x, d1)" by (cases "postBookTry env u bd d")
  note eff = postBookTry_effect [OF t]
  show ?thesis
  proof (cases x)
    case (Inl e)
    then have "r = fst (postBookCatch e d1)" "d' = snd (postBookCatch e d1)"
      using assms t by (simp_all add: postBook_def)
    then show ?thesis using eff Inl catch_effects(2) [of e d1] by auto
  next
    case (Inr r')
    then have "r = r'" "d' = d1" using assms t by (simp_all add: postBook_def)
    then show ?thesis using eff Inr by (auto simp: ok_def)
  qed
qed

lemma putBook_logs:
  assumes "putBook env u i bd d = (r, d')"
  shows "if success r
         then \<exists>e. logs d' = logs d @ [e] \<and> action e = EDIT \<and> l_user e = u_id u
         else logs d' = logs d"
proof -
  obtain x d1 where t: "putBookTry env u i bd d = (x, d1)" by (cases "putBookTry env u i bd d")
  note eff = putBookTry_effect [OF t]
  show ?thesis
  proof (cases x)
    case (Inl e)
    then have "r = fst (putBookCatch e d1)" "d' = snd (putBookCatch e d1)"
      using assms t by (simp_all add: putBook_def)
    then show ?thesis using eff Inl catch_effects(3) [of e d1] by auto
  next
    case (Inr r')
    then have "r = r'" "d' = d1" using assms t by (simp_all add: putBook_def)
    then show ?thesis using eff Inr by (auto simp: ok_def)
  qed
qed

lemma deleteBook_logs:
  assumes "deleteBook env u i d = (r, d')"
  shows "if success r
         then \<exists>e. logs d' = logs d @ [e] \<and> action e = DELETE \<and> l_user e = u_id u
         else logs d' = logs d"
proof -
  obtain x d1 where t: "deleteBookTry env u i d = (x, d1)" by (cases "deleteBookTry env u i d")
  note eff = deleteBookTry_effect [OF t]
  show ?thesis
  proof (cases x)
    case (Inl e)
    then have "r = fst (deleteBookCatch e d1)" "d' = snd (deleteBookCatch e d1)"
      using assms t by (simp_all add: deleteBook_def)
    then show ?thesis using eff Inl catch_effects(4) [of e d1] by auto
  next
    case (Inr r')
    then have "r = r'" "d' = d1" using assms t by (simp_all add: deleteBook_def)
    then show ?thesis using eff Inr by (auto simp: ok_def)
  qed
qed

lemma read_logs:
  "logs (snd (getBooks env u d)) = logs d"
  "logs (snd (getBook env u i d)) = logs d"
  "logs (snd (getLogs env u n d)) = logs d"
  "logs (snd (login env em pw d)) = logs d"
  "logs (snd (resetPassword env t pw d)) = logs d"
      apply (simp add: getBooks_def Let_def)
     apply (simp add: getBook_def getBookTry_def getBookCatch_def Let_def
      split: option.splits)
    apply (simp add: getLogs_def Let_def)
   apply (simp add: login_def loginTry_def loginCatch_def split: jsval.splits option.splits)
  apply (simp add: resetPassword_def resetPasswordTry_def resetPasswordCatch_def
      saveResetUser_def Let_def split: jsval.splits option.splits sum.splits list.splits)
  done

lemma find_Some_in: "find P xs = Some x \<Longrightarrow> x \<in> set xs \<and> P x"
  by (induction xs) (auto split: if_splits)

lemma auth_books:
  "books (snd (login env em pw d)) = books d"
  "books (snd (resetPassword env t pw d)) = books d"
   apply (simp add: login_def loginTry_def loginCatch_def split: jsval.splits option.splits)
  apply (simp add: resetPassword_def resetPasswordTry_def resetPasswordCatch_def
      saveResetUser_def Let_def split: jsval.splits option.splits sum.splits list.splits)
  done

lemma read_books:
  "books (snd (getBook env u i d)) = books d"
  by (simp add: getBook_def getBookTry_def getBookCatch_def Let_def split: option.splits)


lemma handler_of_try:
  "postBook env u bd d = (r, d') \<Longrightarrow> postBookTry env u bd d = (x, d1) \<Longrightarrow>
     books d' = books d1 \<and> logs d' = logs d1 \<and> users d' = users d1
     \<and> (success r \<longleftrightarrow> (\<exists>r'. x = Inr r' \<and> success r'))"
  "putBook env u i bd d = (r, d') \<Longrightarrow> putBookTry env u i bd d = (x, d1) \<Longrightarrow>
     books d' = books d1 \<and> logs d' = logs d1 \<and> users d' = users d1
     \<and> (success r \<longleftrightarrow> (\<exists>r'. x = Inr r' \<and> success r'))"
  "deleteBook env u i d = (r, d') \<Longrightarrow> deleteBookTry env u i d = (x, d1) \<Longrightarrow>
     books d' = books d1 \<and> logs d' = logs d1 \<and> users d' = users d1
     \<and> (success r \<longleftrightarrow> (\<exists>r'. x = Inr r' \<and> success r'))"
  by (cases x; auto simp: postBook_def putBook_def deleteBook_def postBookCatch_def
      putBookCatch_def deleteBookCatch_def Let_def failure_def split: if_splits)+

section \<open>A failing append to the activity log\<close>

lemma validateBook_audit:
  "validateBook (env\<lparr>auditFails := f\<rparr>) b = validateBook env b"
  by (cases "year b") (simp_all add: validateBook_def)

lemma audit_independent:
  "insertBook (env\<lparr>auditFails := f\<rparr>) b d = insertBook env b d"
  "updateBook (env\<lparr>auditFails := f\<rparr>) old b d = updateBook env old b d"
  by (auto simp: insertBook_def updateBook_def validateBook_audit split: list.splits)

lemma logActivity_switch:
  assumes "logActivity (env\<lparr>auditFails := False\<rparr>) uid a bt desc det d = (Inr e, d1)"
  shows "logActivity (env\<lparr>auditFails := True\<rparr>) uid a bt desc det d
           = (Inl StorageError, d1\<lparr>logs := logs d\<rparr>)"
  using assms
  by (auto simp: logActivity_def newObjectId_def Let_def split: list.splits)

lemma postBookTry_switch:
  assumes "postBookTry (env\<lparr>auditFails := False\<rparr>) u bd d = (Inr r, d1)" and "success r"
  shows "postBookTry (env\<lparr>auditFails := True\<rparr>) u bd d
           = (Inl StorageError, d1\<lparr>logs := logs d\<rparr>)"
  using assms
  apply (simp add: postBookTry_def newObjectId_def Let_def failure_def audit_independent
      split: if_splits sum.splits option.splits prod.splits)
  apply (auto dest!: insertBook_effect dest: logActivity_switch)
  done

lemma putBookTry_switch:
  assumes run: "putBookTry (env\<lparr>auditFails := False\<rparr>) u i bd d = (Inr r, d1)"
    and s: "success r"
  shows "putBookTry (env\<lparr>auditFails := True\<rparr>) u i bd d
           = (Inl StorageError, d1\<lparr>logs := logs d\<rparr>)"
proof -
  let ?ok = "env\<lparr>auditFails := False\<rparr>" and ?ko = "env\<lparr>auditFails := True\<rparr>"
  obtain i0 where i0: "castObjectId env i = Some i0"
    using run by (cases "castObjectId env i") (auto simp: putBookTry_def)
  obtain old where old: "find (\<lambda>b. b_id b = i0 \<and> b_user b = u_id u) (books d) = Some old"
    using run s i0
    by (cases "find (\<lambda>b. b_id b = i0 \<and> b_user b = u_id u) (books d)")
      (auto simp: putBookTry_def failure_def)
  obtain b1 where b1: "assignTrimmed (body_title bd) (\<lambda>s b. b\<lparr>title := s\<rparr>) old = Inr b1"
    using run i0 old
    by (cases "assignTrimmed (body_title bd) (\<lambda>s b. b\<lparr>title := s\<rparr>) old")
      (auto simp: putBookTry_def)
  obtain b2 where b2: "assignTrimmed (body_author bd) (\<lambda>s b. b\<lparr>author := s\<rparr>) b1 = Inr b2"
    using run i0 old b1
    by (cases "assignTrimmed (body_author bd) (\<lambda>s b. b\<lparr>author := s\<rparr>) b1")
      (auto simp: putBookTry_def)
  obtain b3 where b3: "assignTrimmed (body_isbn bd) (\<lambda>s b. b\<lparr>isbn := s\<rparr>) b2 = Inr b3"
    using run i0 old b1 b2
    by (cases "assignTrimmed (body_isbn bd) (\<lambda>s b. b\<lparr>isbn := s\<rparr>) b2")
      (auto simp: putBookTry_def)
  define b4 where "b4 = (if falsy (body_year bd) then b3
                         else b3\<lparr>year := parseInt (body_year bd)\<rparr>)"
  obtain updatedBook d2 where ub: "updateBook env old b4 d = Inr (updatedBook, d2)"
    using run i0 old b1 b2 b3
    by (cases "updateBook env old b4 d")
      (auto simp: putBookTry_def audit_independent b4_def [symmetric])
  have logs2: "logs d2 = logs d"
    using updateBook_effect [OF ub] by (auto split: if_splits)
  let ?desc = "''Updated '' @ quoted (title old) @ '' book details''"
  let ?det = "EditDetails (b_id updatedBook) bd"
  have unfold: "putBookTry e u i bd d =
      (case logActivity e (u_id u) EDIT (title updatedBook) ?desc ?det d2 of
         (Inl err, d3) \<Rightarrow> (Inl err, d3)
       | (Inr entry, d3) \<Rightarrow>
           (Inr (ok 200 (Some ''Book updated successfully'') None
              (Some (BookData updatedBook))), d3))"
    if "e = ?ok \<or> e = ?ko" for e
    using that i0 old b1 b2 b3 ub
    by (auto simp: putBookTry_def audit_independent b4_def [symmetric])
  obtain entry where l: "logActivity ?ok (u_id u) EDIT (title updatedBook) ?desc ?det d2
      = (Inr entry, d1)"
    using run unfold [of ?ok]
    by (cases "logActivity ?ok (u_id u) EDIT (title updatedBook) ?desc ?det d2";
        cases "fst (logActivity ?ok (u_id u) EDIT (title updatedBook) ?desc ?det d2)") auto
  show ?thesis
    using logActivity_switch [OF l] unfold [of ?ko] logs2 by simp
qed

lemma deleteBookTry_switch:
  assumes "deleteBookTry (env\<lparr>auditFails := False\<rparr>) u i d = (Inr r, d1)" and "success r"
  shows "deleteBookTry (env\<lparr>auditFails := True\<rparr>) u i d
           = (Inl StorageError, d1\<lparr>logs := logs d\<rparr>)"
  using assms
  apply (simp add: deleteBookTry_def findOneAndDelete_def Let_def failure_def
      split: if_splits sum.splits option.splits prod.splits)
  apply (auto dest: logActivity_switch)
  done

lemma try_of_success:
  "postBook env u bd d = (r, d1) \<Longrightarrow> success r \<Longrightarrow>
     postBookTry env u bd d = (Inr r, d1)"
  "putBook env u i bd d = (r, d1) \<Longrightarrow> success r \<Longrightarrow>
     putBookTry env u i bd d = (Inr r, d1)"
  "deleteBook env u i d = (r, d1) \<Longrightarrow> success r \<Longrightarrow>
     deleteBookTry env u i d = (Inr r, d1)"
    apply (cases "postBookTry env u bd d"; cases "fst (postBookTry env u bd d)";
      auto simp: postBook_def postBookCatch_def Let_def failure_def split: if_splits)
   apply (cases "putBookTry env u i bd d"; cases "fst (putBookTry env u i bd d)";
      auto simp: putBook_def putBookCatch_def Let_def failure_def split: if_splits)
  apply (cases "deleteBookTry env u i d"; cases "fst (deleteBookTry env u i d)";
      auto simp: deleteBook_def deleteBookCatch_def Let_def failure_def split: if_splits)
  done

lemma try_console:
  "postBookTry env u bd d = (x, d1) \<Longrightarrow> console d1 = console d"
  "putBookTry env u i bd d = (x, d1) \<Longrightarrow> console d1 = console d"
  "deleteBookTry env u i d = (x, d1) \<Longrightarrow> console d1 = console d"
  using postBookTry_effect putBookTry_effect deleteBookTry_effect by blast+

text \<open>
  C3, as the code has it. Take a create, update or delete that is answered with success
  when the append to the activity log works. When the append fails instead, the same
  request leaves the same state but for the missing log entry (so the book mutation is
  stored), the error is written to the console, and the caller gets the route's 500
  response. No create, update or delete is answered with success while the append
  fails.
\<close>

theorem audit_failure_is_an_error:
  assumes "auditFails env"
  shows "(\<forall>r d1. postBook (env\<lparr>auditFails := False\<rparr>) u bd d = (r, d1) \<and> success r \<longrightarrow>
            postBook env u bd d =
              (failure 500 ''Failed to add book. Please try again later.'',
               d1\<lparr>logs := logs d,
                  console := console d @ [(''Error adding book:'', StorageError)]\<rparr>))
       \<and> (\<forall>r d1. putBook (env\<lparr>auditFails := False\<rparr>) u i bd d = (r, d1) \<and> success r \<longrightarrow>
            putBook env u i bd d =
              (failure 500 ''Failed to update book'',
               d1\<lparr>logs := logs d,
                  console := console d @ [(''Error updating book:'', StorageError)]\<rparr>))
       \<and> (\<forall>r d1. deleteBook (env\<lparr>auditFails := False\<rparr>) u i d = (r, d1) \<and> success r \<longrightarrow>
            deleteBook env u i d =
              (failure 500 ''Failed to delete book'',
               d1\<lparr>logs := logs d,
                  console := console d @ [(''Error deleting book:'', StorageError)]\<rparr>))
       \<and> \<not> success (fst (postBook env u bd d))
       \<and> \<not> success (fst (putBook env u i bd d))
       \<and> \<not> success (fst (deleteBook env u i d))"
proof -
  have env: "env\<lparr>auditFails := True\<rparr> = env" using assms by simp
  have post: "postBook env u bd d =
              (failure 500 ''Failed to add book. Please try again later.'',
               d1\<lparr>logs := logs d,
                  console := console d @ [(''Error adding book:'', StorageError)]\<rparr>)"
    if "postBook (env\<lparr>auditFails := False\<rparr>) u bd d = (r, d1)" "success r" for r d1
  proof -
    note t = try_of_success(1) [OF that]
    from postBookTry_switch [OF t that(2)] try_console(1) [OF t]
    show ?thesis by (simp add: env postBook_def postBookCatch_def)
  qed
  have put: "putBook env u i bd d =
              (failure 500 ''Failed to update book'',
               d1\<lparr>logs := logs d,
                  console := console d @ [(''Error updating book:'', StorageError)]\<rparr>)"
    if "putBook (env\<lparr>auditFails := False\<rparr>) u i bd d = (r, d1)" "success r" for r d1
  proof -
    note t = try_of_success(2) [OF that]
    from putBookTry_switch [OF t that(2)] try_console(2) [OF t]
    show ?thesis by (simp add: env putBook_def putBookCatch_def)
  qed
  have del: "deleteBook env u i d =
              (failure 500 ''Failed to delete book'',
               d1\<lparr>logs := logs d,
                  console := console d @ [(''Error deleting book:'', StorageError)]\<rparr>)"
    if "deleteBook (env\<lparr>auditFails := False\<rparr>) u i d = (r, d1)" "success r" for r d1
  proof -
    note t = try_of_success(3) [OF that]
    from deleteBookTry_switch [OF t that(2)] try_console(3) [OF t]
    show ?thesis by (simp add: env deleteBook_def deleteBookCatch_def)
  qed
  have n1: "\<not> success (fst (postBook env u bd d))"
  proof
    assume s: "success (fst (postBook env u bd d))"
    have "postBook env u bd d = (fst (postBook env u bd d), snd (postBook env u bd d))" by simp
    from postBookTry_effect [OF try_of_success(1) [OF this s]] s assms
    show False by auto
  qed
  have n2: "\<not> success (fst (putBook env u i bd d))"
  proof
    assume s: "success (fst (putBook env u i bd d))"
    have "putBook env u i bd d = (fst (putBook env u i bd d), snd (putBook env u i bd d))"
      by simp
    from putBookTry_effect [OF try_of_success(2) [OF this s]] s assms
    show False by auto
  qed
  have n3: "\<not> success (fst (deleteBook env u i d))"
  proof
    assume s: "success (fst (deleteBook env u i d))"
    have "deleteBook env u i d = (fst (deleteBook env u i d), snd (deleteBook env u i d))"
      by simp
    from deleteBookTry_effect [OF try_of_success(3) [OF this s]] s assms
    show False by auto
  qed
  show ?thesis using post put del n1 n2 n3 by blast
qed

lemma cast_duneId: "castObjectId env0 duneId = Some 16"
  by (simp add: env0_def hexObjectId_def duneId_def hexDigit_def)

lemma failingEnv_simps:
  "auditFails failingEnv" "failingEnv\<lparr>auditFails := False\<rparr> = env0"
  "castObjectId failingEnv = castObjectId env0" "now failingEnv = 5000"
  "maxYear failingEnv = 2026"
  by (simp_all add: failingEnv_def env0_def)

lemma alice_runs:
  "success (fst (postBook env0 alice emmaBody store0))"
  "success (fst (putBook env0 alice duneId emmaBody store0))"
  "success (fst (deleteBook env0 alice duneId store0))"
    apply (simp add: postBook_def postBookTry_def emmaBody_def store0_def alice_def dune_def
      trim_examples parse_examples newObjectId_def insertBook_def validateBook_def
      validateString_def env0_def logActivity_def validateActivity_def quoted_def
      Let_def ok_def)
   apply (simp add: putBook_def putBookTry_def cast_duneId)
   apply (simp add: emmaBody_def store0_def alice_def dune_def assignTrimmed_def
      trim_examples parse_examples newObjectId_def updateBook_def validateBook_def
      validateString_def env0_def logActivity_def validateActivity_def quoted_def
      Let_def ok_def)
  apply (simp add: deleteBook_def deleteBookTry_def cast_duneId)
  apply (simp add: store0_def alice_def dune_def findOneAndDelete_def
      newObjectId_def env0_def logActivity_def validateActivity_def quoted_def
      Let_def ok_def)
  done

text \<open>
  C3 as the specification states it, refuted: the append to the activity log fails, the
  new book is stored all the same, and the caller is told 500, not success.
\<close>

theorem audit_failure_counterexample:
  "auditFails failingEnv
   \<and> postBook failingEnv bob emmaBody store0 =
       (failure 500 ''Failed to add book. Please try again later.'',
        store0\<lparr>books := [dune, emma], nextId := 19,
          console := [(''Error adding book:'', StorageError)]\<rparr>)
   \<and> \<not> success (failure 500 ''Failed to add book. Please try again later.'')"
  by (simp add: postBook_def postBookTry_def postBookCatch_def emmaBody_def store0_def
      bob_def dune_def trim_examples parse_examples newObjectId_def insertBook_def
      validateBook_def validateString_def failingEnv_def env0_def logActivity_def
      validateActivity_def emma_def Let_def failure_def)

theorem audit_failure_is_an_error_witness:
  "auditFails failingEnv
   \<and> success (fst (postBook env0 alice emmaBody store0))
   \<and> postBook failingEnv alice emmaBody store0 =
       (failure 500 ''Failed to add book. Please try again later.'',
        (snd (postBook env0 alice emmaBody store0))
          \<lparr>logs := logs store0,
            console := console store0 @ [(''Error adding book:'', StorageError)]\<rparr>)
   \<and> success (fst (putBook env0 alice duneId emmaBody store0))
   \<and> putBook failingEnv alice duneId emmaBody store0 =
       (failure 500 ''Failed to update book'',
        (snd (putBook env0 alice duneId emmaBody store0))
          \<lparr>logs := logs store0,
            console := console store0 @ [(''Error updating book:'', StorageError)]\<rparr>)
   \<and> success (fst (deleteBook env0 alice duneId store0))
   \<and> deleteBook failingEnv alice duneId store0 =
       (failure 500 ''Failed to delete book'',
        (snd (deleteBook env0 alice duneId store0))
          \<lparr>logs := logs store0,
            console := console store0 @ [(''Error deleting book:'', StorageError)]\<rparr>)"
proof -
  note th = audit_failure_is_an_error [OF failingEnv_simps(1), of alice emmaBody store0 duneId]
  have p: "postBook (failingEnv\<lparr>auditFails := False\<rparr>) alice emmaBody store0
      = (fst (postBook env0 alice emmaBody store0), snd (postBook env0 alice emmaBody store0))"
    and q: "putBook (failingEnv\<lparr>auditFails := False\<rparr>) alice duneId emmaBody store0
      = (fst (putBook env0 alice duneId emmaBody store0),
         snd (putBook env0 alice duneId emmaBody store0))"
    and r: "deleteBook (failingEnv\<lparr>auditFails := False\<rparr>) alice duneId store0
      = (fst (deleteBook env0 alice duneId store0), snd (deleteBook env0 alice duneId store0))"
    by (simp_all add: failingEnv_simps(2))
  show ?thesis
    using th p q r alice_runs failingEnv_simps(1) by blast
qed

section \<open>ISBN uniqueness\<close>

text \<open>
  The route looks for the ISBN among the books of the requesting account, and the unique
  index of the schema covers the whole collection. So a create whose trimmed ISBN is
  the ISBN of a stored book is never answered with success and stores nothing, whoever
  owns that book. When the book is the requesting account's own, the route answers 400
  "A book with this ISBN already exists in your library"; this is the answer to a
  second create by the account of a successful create. When only other accounts hold
  the ISBN and the other fields are strings, the save is refused and the answer is 400
  too, from validation or, for a valid book, from the index: "A book with this ISBN
  already exists".
\<close>

lemma find_Some_ex: "x \<in> set xs \<Longrightarrow> P x \<Longrightarrow> \<exists>y. find P xs = Some y"
  by (induction xs) auto

lemma postBook_same_account:
  assumes "body_isbn bd = JString s" and "s \<noteq> []"
    and "\<not> falsy (body_title bd)" and "\<not> falsy (body_author bd)" and "\<not> falsy (body_year bd)"
    and "b \<in> set (books d)" and "isbn b = trim s" and "b_user b = u_id u"
  shows "postBook env u bd d =
           (failure 400 ''A book with this ISBN already exists in your library'', d)"
proof -
  obtain y where "find (\<lambda>b. isbn b = trim s \<and> b_user b = u_id u) (books d) = Some y"
    using find_Some_ex [of b "books d" "\<lambda>b. isbn b = trim s \<and> b_user b = u_id u"] assms(6-8)
    by auto
  then show ?thesis using assms(1-5) by (simp add: postBook_def postBookTry_def)
qed

lemma postBook_any_account:
  assumes "body_isbn bd = JString s" and "b \<in> set (books d)" and "isbn b = trim s"
  shows "\<not> success (fst (postBook env u bd d)) \<and> books (snd (postBook env u bd d)) = books d
       \<and> logs (snd (postBook env u bd d)) = logs d"
proof -
  obtain x d1 where t: "postBookTry env u bd d = (x, d1)" by (cases "postBookTry env u bd d")
  have h: "postBook env u bd d = (fst (postBook env u bd d), snd (postBook env u bd d))" by simp
  have dup: "find (\<lambda>x. isbn x = trim s) (books d) \<noteq> None"
    using find_Some_ex [of b "books d" "\<lambda>x. isbn x = trim s"] assms(2,3) by auto
  have first: "books d1 = books d \<and> logs d1 = logs d \<and> (\<forall>r. x = Inr r \<longrightarrow> \<not> success r)"
    using postBookTry_effect [OF t] dup assms(1) by auto
  show ?thesis using handler_of_try(1) [OF h t] first by auto
qed

lemma postBook_other_account:
  assumes "body_isbn bd = JString s" and "s \<noteq> []"
    and "body_title bd = JString t" and "t \<noteq> []"
    and "body_author bd = JString a" and "a \<noteq> []"
    and "\<not> falsy (body_year bd)"
    and "find (\<lambda>x. isbn x = trim s \<and> b_user x = u_id u) (books d) = None"
    and "b \<in> set (books d)" and "isbn b = trim s"
  shows "status (fst (postBook env u bd d)) = 400
       \<and> (validateBook env
             \<lparr>b_id = nextId d, b_user = u_id u, title = trim t, author = trim a,
              isbn = trim s, year = parseInt (body_year bd), createdAt = now env,
              updatedAt = now env\<rparr> = []
            \<longrightarrow> fst (postBook env u bd d) = failure 400 ''A book with this ISBN already exists'')"
proof -
  let ?nb = "\<lparr>b_id = nextId d, b_user = u_id u, title = trim t, author = trim a,
              isbn = trim s, year = parseInt (body_year bd), createdAt = now env,
              updatedAt = now env\<rparr>"
  let ?d1 = "d\<lparr>nextId := Suc (nextId d)\<rparr>"
  have dup: "find (\<lambda>x. isbn x = trim s) (books d) \<noteq> None"
    using find_Some_ex [of b "books d" "\<lambda>x. isbn x = trim s"] assms(9,10) by auto
  have ins: "insertBook env ?nb ?d1 =
      (case validateBook env ?nb of
         e # es \<Rightarrow> Inl (ValidationError (e # es))
       | [] \<Rightarrow> Inl (MongoServerError 11000))"
    using dup by (auto simp: insertBook_def split: list.splits)
  have t: "postBookTry env u bd d =
      (case validateBook env ?nb of
         e # es \<Rightarrow> (Inl (ValidationError (e # es)), ?d1)
       | [] \<Rightarrow> (Inl (MongoServerError 11000), ?d1))"
    using assms(1-8) ins
    by (simp add: postBookTry_def newObjectId_def split: list.splits)
  show ?thesis
    by (cases "validateBook env ?nb")
      (simp_all add: postBook_def t postBookCatch_def failure_def)
qed

lemma postBook_twice:
  assumes "postBook envP u bdP dP = (rP, d)" and "success rP"
    and "body_isbn bd = body_isbn bdP"
    and "\<not> falsy (body_title bd)" and "\<not> falsy (body_author bd)" and "\<not> falsy (body_year bd)"
  shows "postBook env u bd d =
           (failure 400 ''A book with this ISBN already exists in your library'', d)"
proof -
  note t = try_of_success(1) [OF assms(1,2)]
  from postBookTry_effect [OF t] assms(2)
  obtain b where b: "books d = books dP @ [b]" "b_user b = u_id u" "validateBook envP b = []"
    "trimValue (body_isbn bdP) = Inr (isbn b)"
    by auto
  from b(4) obtain s where s: "body_isbn bdP = JString s" "isbn b = trim s"
    by (auto simp: trimValue_Inr)
  have "isbn b \<noteq> []" using b(3) by (auto simp: validateBook_Nil)
  then have "s \<noteq> []" using s(2) by (auto simp: trim_def)
  moreover have "b \<in> set (books d)" using b(1) by simp
  ultimately show ?thesis
    using postBook_same_account [of bd s b d u env] assms(3-6) s b(2) by simp
qed

text \<open>
  C1, evaluated. Alice owns a book with the ISBN 9780441013593 and Bob owns no book. Bob
  creates a book with that ISBN: the route finds no book of Bob's with it, and the save
  is refused by the unique index, which covers the books of every account; Bob is
  answered 400 "A book with this ISBN already exists" and nothing is stored. Alice's
  own second create with the ISBN is answered by the route's check, 400 "A book with
  this ISBN already exists in your library". Bob's create with an ISBN nobody holds is
  answered 201.
\<close>

theorem isbn_of_another_account_refused:
  "b_user dune = u_id alice \<and> u_id bob \<noteq> u_id alice
   \<and> books store0 = [dune]
   \<and> body_isbn duneBody = JString (isbn dune)
   \<and> postBook env0 bob duneBody store0 =
       (failure 400 ''A book with this ISBN already exists'',
        store0\<lparr>nextId := 18, console := [(''Error adding book:'', MongoServerError 11000)]\<rparr>)
   \<and> postBook env0 alice duneBody store0 =
       (failure 400 ''A book with this ISBN already exists in your library'', store0)
   \<and> fst (postBook env0 bob emmaBody store0) =
       ok 201 (Some ''Book added successfully to your library'') None (Some (BookData emma))"
proof (intro conjI)
  show "postBook env0 bob duneBody store0 =
       (failure 400 ''A book with this ISBN already exists'',
        store0\<lparr>nextId := 18, console := [(''Error adding book:'', MongoServerError 11000)]\<rparr>)"
    by (simp add: postBook_def postBookTry_def postBookCatch_def duneBody_def store0_def
        bob_def dune_def trim_examples parse_examples newObjectId_def insertBook_def
        validateBook_def validateString_def env0_def Let_def)
  show "postBook env0 alice duneBody store0 =
       (failure 400 ''A book with this ISBN already exists in your library'', store0)"
    by (simp add: postBook_def postBookTry_def duneBody_def store0_def alice_def dune_def
        trim_examples)
  show "fst (postBook env0 bob emmaBody store0) =
       ok 201 (Some ''Book added successfully to your library'') None (Some (BookData emma))"
    by (simp add: post_emma)
qed (simp_all add: dune_def alice_def bob_def store0_def duneBody_def)
section \<open>Validation errors of an update\<close>

text \<open>
  The \<open>catch\<close> block of the PUT route tests the error for a malformed identifier only,
  so 400 is its answer in that case alone: every other error of an update, a validation
  error among them, is answered 500.
\<close>

lemma error_kinds:
  "assignTrimmed v f b = Inl e \<Longrightarrow> kind e = None"
  "updateBook env old b d = Inl e \<Longrightarrow> kind e = None"
  "logActivity env uid a bt desc det d = (Inl e, d') \<Longrightarrow> kind e = None"
    apply (cases v; auto simp: assignTrimmed_def split: if_splits)
   apply (auto simp: updateBook_def Let_def split: list.splits if_splits)[1]
  apply (auto simp: logActivity_def newObjectId_def Let_def split: list.splits if_splits)
  done

lemma putBookTry_error_kind:
  assumes "putBookTry env u i bd d = (Inl e, d1)" and "castObjectId env i = Some i0"
  shows "kind e = None"
  using assms
  by (auto simp: putBookTry_def Let_def failure_def
      split: option.splits sum.splits prod.splits
      dest: error_kinds)

lemma putBook_400_iff:
  "status (fst (putBook env u i bd d)) = 400 \<longleftrightarrow> castObjectId env i = None"
proof (cases "castObjectId env i")
  case None
  then show ?thesis by (simp add: putBook_def putBookTry_def putBookCatch_def failure_def)
next
  case (Some i0)
  obtain x d1 where t: "putBookTry env u i bd d = (x, d1)" by (cases "putBookTry env u i bd d")
  have "status (fst (putBook env u i bd d)) \<noteq> 400"
  proof (cases x)
    case (Inl e)
    then show ?thesis using t putBookTry_error_kind [OF _ Some, of u bd d e d1]
      by (auto simp: putBook_def putBookCatch_def failure_def)
  next
    case (Inr r)
    have "status r = 404 \<or> status r = 200"
      using t Inr Some
      by (auto simp: putBookTry_def Let_def failure_def ok_def
          split: option.splits sum.splits prod.splits)
    then show ?thesis using t Inr by (auto simp: putBook_def)
  qed
  then show ?thesis using Some by simp
qed

text \<open>
  C5, evaluated. Alice updates her own book with the year 999, then with an ISBN of three
  characters. Both violate the schema, and both are answered 500 "Failed to update
  book", with the validation error on the console and the book unchanged. The POST
  route answers the same year with 400 and the validator's message.
\<close>

theorem update_validation_error_is_500:
  "putBook env0 alice duneId (emptyBody\<lparr>body_year := JNumber ''999''\<rparr>) store0 =
     (failure 500 ''Failed to update book'',
      store0\<lparr>console := [(''Error updating book:'',
         ValidationError [(''year'', ''Year must be a valid 4-digit year'')])]\<rparr>)
   \<and> putBook env0 alice duneId (emptyBody\<lparr>body_isbn := JString ''123''\<rparr>) store0 =
     (failure 500 ''Failed to update book'',
      store0\<lparr>console := [(''Error updating book:'',
         ValidationError [(''isbn'', ''ISBN must be at least 10 characters'')])]\<rparr>)
   \<and> fst (postBook env0 alice (emmaBody\<lparr>body_year := JNumber ''999''\<rparr>) store0) =
       failure 400 ''Year must be a valid 4-digit year''"
proof (intro conjI)
  show "putBook env0 alice duneId (emptyBody\<lparr>body_year := JNumber ''999''\<rparr>) store0 =
     (failure 500 ''Failed to update book'',
      store0\<lparr>console := [(''Error updating book:'',
         ValidationError [(''year'', ''Year must be a valid 4-digit year'')])]\<rparr>)"
    by (simp add: putBook_def putBookTry_def cast_duneId)
      (simp add: emptyBody_def store0_def alice_def dune_def assignTrimmed_def parse_examples
        updateBook_def validateBook_def validateString_def env0_def putBookCatch_def
        failure_def Let_def)
  show "putBook env0 alice duneId (emptyBody\<lparr>body_isbn := JString ''123''\<rparr>) store0 =
     (failure 500 ''Failed to update book'',
      store0\<lparr>console := [(''Error updating book:'',
         ValidationError [(''isbn'', ''ISBN must be at least 10 characters'')])]\<rparr>)"
    by (simp add: putBook_def putBookTry_def cast_duneId)
      (simp add: emptyBody_def store0_def alice_def dune_def assignTrimmed_def
        trim_examples
        updateBook_def validateBook_def validateString_def env0_def putBookCatch_def
        failure_def Let_def)
  show "fst (postBook env0 alice (emmaBody\<lparr>body_year := JNumber ''999''\<rparr>) store0) =
       failure 400 ''Year must be a valid 4-digit year''"
    by (simp add: postBook_def postBookTry_def emmaBody_def store0_def alice_def dune_def
        trim_examples parse_examples newObjectId_def insertBook_def validateBook_def
        validateString_def env0_def postBookCatch_def failure_def Let_def)
qed

section \<open>One log entry for each mutation\<close>

text \<open>
  What the three mutating routes do when the book is stored: the exact response and state
  of a create whose book is valid and whose ISBN no stored book has, of an update whose
  document is valid and accepted by the unique index, and of a delete of a stored book
  with a title. The entry is appended after the book is written, in the same \<open>try\<close>
  block, so when the append fails the book stays written, no entry exists, and the
  \<open>catch\<close> block answers 500.
\<close>

lemma postBook_stores:
  assumes p: "protect env a d = Inr u"
    and t: "body_title bd = JString t" "t \<noteq> []"
    and au: "body_author bd = JString au" "au \<noteq> []"
    and s: "body_isbn bd = JString s" "s \<noteq> []"
    and y: "\<not> falsy (body_year bd)"
    and nb: "nb = \<lparr>b_id = nextId d, b_user = u_id u, title = trim t, author = trim au,
                  isbn = trim s, year = parseInt (body_year bd), createdAt = now env,
                  updatedAt = now env\<rparr>"
    and valid: "validateBook env nb = []"
    and fresh: "find (\<lambda>x. isbn x = trim s) (books d) = None"
  shows "app env a (PostBook bd) d =
     (if auditFails env
      then (failure 500 ''Failed to add book. Please try again later.'',
            d\<lparr>books := books d @ [nb], nextId := Suc (Suc (nextId d)),
              console := console d @ [(''Error adding book:'', StorageError)]\<rparr>)
      else (ok 201 (Some ''Book added successfully to your library'') None
              (Some (BookData nb)),
            d\<lparr>books := books d @ [nb],
              logs := logs d @
                [\<lparr>l_id = Suc (nextId d), l_user = u_id u, action = ADD,
                  description = ''Added '' @ quoted (trim t) @ '' by '' @ trim au
                     @ '' to the library'',
                  bookTitle = trim t,
                  details = AddDetails (nextId d) (trim au) (trim s) (parseInt (body_year bd)),
                  timestamp = now env\<rparr>],
              nextId := Suc (Suc (nextId d))\<rparr>))"
proof -
  have own: "find (\<lambda>b. isbn b = trim s \<and> b_user b = u_id u) (books d) = None"
    using fresh by (auto simp: find_None_iff)
  note valid' = valid [unfolded nb]
  have tne: "trim t \<noteq> []" using valid by (simp add: validateBook_Nil nb)
  have "postBook env u bd d =
     (if auditFails env
      then (failure 500 ''Failed to add book. Please try again later.'',
            d\<lparr>books := books d @ [nb], nextId := Suc (Suc (nextId d)),
              console := console d @ [(''Error adding book:'', StorageError)]\<rparr>)
      else (ok 201 (Some ''Book added successfully to your library'') None
              (Some (BookData nb)),
            d\<lparr>books := books d @ [nb],
              logs := logs d @
                [\<lparr>l_id = Suc (nextId d), l_user = u_id u, action = ADD,
                  description = ''Added '' @ quoted (trim t) @ '' by '' @ trim au
                     @ '' to the library'',
                  bookTitle = trim t,
                  details = AddDetails (nextId d) (trim au) (trim s) (parseInt (body_year bd)),
                  timestamp = now env\<rparr>],
              nextId := Suc (Suc (nextId d))\<rparr>))"
    unfolding nb using t au s y own valid' fresh tne
    by (simp add: postBook_def postBookTry_def newObjectId_def insertBook_def logActivity_def
        validateActivity_def postBookCatch_def Let_def)
  then show ?thesis unfolding app_reaches_handler(3) [OF p] .
qed

lemma putBook_stores:
  assumes p: "protect env a d = Inr u"
    and k: "castObjectId env i = Some k"
    and old: "find (\<lambda>b. b_id b = k \<and> b_user b = u_id u) (books d) = Some old"
    and b1: "assignTrimmed (body_title bd) (\<lambda>s b. b\<lparr>title := s\<rparr>) old = Inr b1"
    and b2: "assignTrimmed (body_author bd) (\<lambda>s b. b\<lparr>author := s\<rparr>) b1 = Inr b2"
    and b3: "assignTrimmed (body_isbn bd) (\<lambda>s b. b\<lparr>isbn := s\<rparr>) b2 = Inr b3"
    and b4: "b4 = (if falsy (body_year bd) then b3 else b3\<lparr>year := parseInt (body_year bd)\<rparr>)"
    and valid: "validateBook env b4 = []"
    and index: "b4 = old \<or> isbn b4 = isbn old
                \<or> find (\<lambda>x. b_id x \<noteq> b_id b4 \<and> isbn x = isbn b4) (books d) = None"
    and b': "b' = (if b4 = old then old else b4\<lparr>updatedAt := now env\<rparr>)"
    and d1: "d1 = (if b4 = old then d
                   else d\<lparr>books := map (\<lambda>x. if b_id x = b_id b4 then b' else x) (books d)\<rparr>)"
  shows "app env a (PutBook i bd) d =
     (if auditFails env
      then (failure 500 ''Failed to update book'',
            d1\<lparr>nextId := Suc (nextId d),
               console := console d @ [(''Error updating book:'', StorageError)]\<rparr>)
      else (ok 200 (Some ''Book updated successfully'') None (Some (BookData b')),
            d1\<lparr>logs := logs d @
                 [\<lparr>l_id = nextId d, l_user = u_id u, action = EDIT,
                   description = ''Updated '' @ quoted (title old) @ '' book details'',
                   bookTitle = title b', details = EditDetails (b_id b') bd,
                   timestamp = now env\<rparr>],
               nextId := Suc (nextId d)\<rparr>))"
proof -
  have ub: "updateBook env old b4 d = Inr (b', d1)"
    using valid index by (auto simp: updateBook_def b' d1 Let_def)
  have rest: "nextId d1 = nextId d" "logs d1 = logs d" "console d1 = console d"
    by (simp_all add: d1)
  have tne: "title b' \<noteq> []" using valid by (auto simp: validateBook_Nil b')
  let ?desc = "''Updated '' @ quoted (title old) @ '' book details''"
  let ?det = "EditDetails (b_id b') bd"
  have eq: "putBookTry env u i bd d =
      (case logActivity env (u_id u) EDIT (title b') ?desc ?det d1 of
         (Inl e, d2) \<Rightarrow> (Inl e, d2)
       | (Inr entry, d2) \<Rightarrow>
           (Inr (ok 200 (Some ''Book updated successfully'') None (Some (BookData b'))), d2))"
    using k old b1 b2 b3 ub by (simp add: putBookTry_def b4 [symmetric])
  have "putBook env u i bd d =
     (if auditFails env
      then (failure 500 ''Failed to update book'',
            d1\<lparr>nextId := Suc (nextId d),
               console := console d @ [(''Error updating book:'', StorageError)]\<rparr>)
      else (ok 200 (Some ''Book updated successfully'') None (Some (BookData b')),
            d1\<lparr>logs := logs d @
                 [\<lparr>l_id = nextId d, l_user = u_id u, action = EDIT,
                   description = ''Updated '' @ quoted (title old) @ '' book details'',
                   bookTitle = title b', details = EditDetails (b_id b') bd,
                   timestamp = now env\<rparr>],
               nextId := Suc (nextId d)\<rparr>))"
    using tne rest
    by (simp add: putBook_def eq logActivity_def newObjectId_def validateActivity_def
        putBookCatch_def Let_def)
  then show ?thesis unfolding app_reaches_handler(4) [OF p] .
qed

lemma deleteBook_stores:
  assumes p: "protect env a d = Inr u"
    and k: "castObjectId env i = Some k"
    and b: "find (\<lambda>b. b_id b = k \<and> b_user b = u_id u) (books d) = Some b"
    and tne: "title b \<noteq> []"
  shows "app env a (DeleteBook i) d =
     (if auditFails env
      then (failure 500 ''Failed to delete book'',
            d\<lparr>books := remove1 b (books d), nextId := Suc (nextId d),
              console := console d @ [(''Error deleting book:'', StorageError)]\<rparr>)
      else (ok 200 (Some (quoted (title b) @ '' has been removed from your library'')) None
              (Some (BookData b)),
            d\<lparr>books := remove1 b (books d),
              logs := logs d @
                [\<lparr>l_id = nextId d, l_user = u_id u, action = DELETE,
                  description = ''Removed '' @ quoted (title b) @ '' by '' @ author b
                     @ '' from the library'',
                  bookTitle = title b,
                  details = DeleteDetails (author b) (isbn b) (year b),
                  timestamp = now env\<rparr>],
              nextId := Suc (nextId d)\<rparr>))"
proof -
  have "deleteBook env u i d =
     (if auditFails env
      then (failure 500 ''Failed to delete book'',
            d\<lparr>books := remove1 b (books d), nextId := Suc (nextId d),
              console := console d @ [(''Error deleting book:'', StorageError)]\<rparr>)
      else (ok 200 (Some (quoted (title b) @ '' has been removed from your library'')) None
              (Some (BookData b)),
            d\<lparr>books := remove1 b (books d),
              logs := logs d @
                [\<lparr>l_id = nextId d, l_user = u_id u, action = DELETE,
                  description = ''Removed '' @ quoted (title b) @ '' by '' @ author b
                     @ '' from the library'',
                  bookTitle = title b,
                  details = DeleteDetails (author b) (isbn b) (year b),
                  timestamp = now env\<rparr>],
              nextId := Suc (nextId d)\<rparr>))"
    using k b tne
    by (simp add: deleteBook_def deleteBookTry_def findOneAndDelete_def logActivity_def
        newObjectId_def validateActivity_def deleteBookCatch_def Let_def)
  then show ?thesis unfolding app_reaches_handler(5) [OF p] .
qed

text \<open>
  The log after any request: one entry more, of the route's action and the user of the
  gate, exactly when a create, update or delete is answered with success; otherwise
  nothing is appended.
\<close>

lemma log_entries:
  assumes "app env a req d = (r, d')"
  shows "case req of
            PostBook bd \<Rightarrow>
              (if success r
               then \<exists>u e. protect env a d = Inr u \<and> logs d' = logs d @ [e]
                      \<and> action e = ADD \<and> l_user e = u_id u
               else logs d' = logs d)
          | PutBook i bd \<Rightarrow>
              (if success r
               then \<exists>u e. protect env a d = Inr u \<and> logs d' = logs d @ [e]
                      \<and> action e = EDIT \<and> l_user e = u_id u
               else logs d' = logs d)
          | DeleteBook i \<Rightarrow>
              (if success r
               then \<exists>u e. protect env a d = Inr u \<and> logs d' = logs d @ [e]
                      \<and> action e = DELETE \<and> l_user e = u_id u
               else logs d' = logs d)
          | ClearLogs \<Rightarrow> (\<exists>P. logs d' = filter P (logs d))
          | _ \<Rightarrow> logs d' = logs d"
proof (cases "protect env a d")
  case (Inl rejection)
  have rej: "\<not> success rejection"
    using Inl by (auto simp: protect_def failure_def split: option.splits sum.splits if_splits)
  show ?thesis
  proof (cases req)
    case (Login em pw)
    then show ?thesis using assms read_logs(4) [of env em pw d] by auto
  next
    case (ResetPassword t pw)
    then show ?thesis using assms read_logs(5) [of env t pw d] by auto
  next
    case ClearLogs
    then show ?thesis using assms Inl rej
      by (auto simp: protected_Inl intro: exI [of _ "\<lambda>x. True"])
  qed (use assms Inl rej in \<open>auto simp: protected_Inl\<close>)
next
  case (Inr u)
  show ?thesis
  proof (cases req)
    case GetBooks
    then show ?thesis using assms Inr by (auto simp: protected_Inr getBooks_def Let_def)
  next
    case (GetBook i)
    then show ?thesis using assms Inr read_logs(2) [of env u i d]
      by (auto simp: protected_Inr)
  next
    case (PostBook bd)
    then have h: "postBook env u bd d = (r, d')" using assms Inr by (simp add: protected_Inr)
    show ?thesis using PostBook postBook_logs [OF h] Inr by auto
  next
    case (PutBook i bd)
    then have h: "putBook env u i bd d = (r, d')" using assms Inr by (simp add: protected_Inr)
    show ?thesis using PutBook putBook_logs [OF h] Inr by auto
  next
    case (DeleteBook i)
    then have h: "deleteBook env u i d = (r, d')" using assms Inr by (simp add: protected_Inr)
    show ?thesis using DeleteBook deleteBook_logs [OF h] Inr by auto
  next
    case (GetLogs n)
    then show ?thesis using assms Inr by (auto simp: protected_Inr getLogs_def Let_def)
  next
    case ClearLogs
    then show ?thesis using assms Inr by (auto simp: protected_Inr clearLogs_def)
  next
    case (Login em pw)
    then show ?thesis using assms read_logs(4) [of env em pw d] by auto
  next
    case (ResetPassword t pw)
    then show ?thesis using assms read_logs(5) [of env t pw d] by auto
  qed
qed

lemma deleteBookTry_error_kind:
  assumes "deleteBookTry env u i d = (Inl e, d1)" and "castObjectId env i = Some k"
  shows "kind e = None"
  using assms
  by (auto simp: deleteBookTry_def findOneAndDelete_def Let_def
      split: option.splits sum.splits prod.splits dest: error_kinds)

text \<open>
  A request that changed the books and was not answered with success: it was answered
  500, it appended nothing, and the append to the log failed (in the storage layer, or
  on the validation of an entry for a deleted book whose stored title is empty).
\<close>

lemma unlogged_mutation:
  assumes run: "app env a req d = (r, d')" and changed: "books d' \<noteq> books d"
    and ns: "\<not> success r"
  shows "status r = 500 \<and> logs d' = logs d
       \<and> (auditFails env \<or> (\<exists>b\<in>set (books d). title b = []))"
proof (cases "protect env a d")
  case (Inl rejection)
  show ?thesis
  proof (cases req)
    case (Login em pw)
    then show ?thesis using run changed auth_books(1) [of env em pw d] by auto
  next
    case (ResetPassword t pw)
    then show ?thesis using run changed auth_books(2) [of env t pw d] by auto
  qed (use run changed Inl in \<open>auto simp: protected_Inl\<close>)
next
  case (Inr u)
  show ?thesis
  proof (cases req)
    case GetBooks
    then show ?thesis using run changed Inr by (auto simp: protected_Inr getBooks_def Let_def)
  next
    case (GetBook i)
    then show ?thesis using run changed Inr read_books(1) [of env u i d]
      by (auto simp: protected_Inr)
  next
    case (GetLogs n)
    then show ?thesis using run changed Inr by (auto simp: protected_Inr getLogs_def Let_def)
  next
    case ClearLogs
    then show ?thesis using run changed Inr by (auto simp: protected_Inr clearLogs_def)
  next
    case (Login em pw)
    then show ?thesis using run changed auth_books(1) [of env em pw d] by auto
  next
    case (ResetPassword t pw)
    then show ?thesis using run changed auth_books(2) [of env t pw d] by auto
  next
    case (PostBook bd)
    then have h: "postBook env u bd d = (r, d')" using run Inr by (simp add: protected_Inr)
    obtain x d1 where t: "postBookTry env u bd d = (x, d1)" by (cases "postBookTry env u bd d")
    note ht = handler_of_try(1) [OF h t]
    have x: "x = Inl StorageError \<and> auditFails env \<and> logs d1 = logs d"
      using postBookTry_effect [OF t] ht changed ns by (auto simp: ok_def)
    then have "r = fst (postBookCatch StorageError d1)" using h t by (simp add: postBook_def)
    then show ?thesis using x ht by (simp add: postBookCatch_def failure_def)
  next
    case (PutBook i bd)
    then have h: "putBook env u i bd d = (r, d')" using run Inr by (simp add: protected_Inr)
    obtain x d1 where t: "putBookTry env u i bd d = (x, d1)"
      by (cases "putBookTry env u i bd d")
    note ht = handler_of_try(2) [OF h t]
    have x: "x = Inl StorageError \<and> auditFails env \<and> logs d1 = logs d"
      using putBookTry_effect [OF t] ht changed ns by (auto simp: ok_def)
    then have "r = fst (putBookCatch StorageError d1)" using h t by (simp add: putBook_def)
    then show ?thesis using x ht by (simp add: putBookCatch_def failure_def)
  next
    case (DeleteBook i)
    then have h: "deleteBook env u i d = (r, d')" using run Inr by (simp add: protected_Inr)
    obtain x d1 where t: "deleteBookTry env u i d = (x, d1)"
      by (cases "deleteBookTry env u i d")
    note ht = handler_of_try(3) [OF h t]
    from deleteBookTry_effect [OF t] ht changed ns
    obtain k b e where k: "castObjectId env i = Some k"
      and b: "find (\<lambda>b. b_id b = k \<and> b_user b = u_id u) (books d) = Some b"
      and e: "x = Inl e" "auditFails env \<or> title b = []" "logs d1 = logs d"
      by (auto simp: ok_def)
    have mem: "b \<in> set (books d)" using find_Some_in [OF b] by simp
    have "kind e = None" using deleteBookTry_error_kind [OF t [unfolded e(1)] k] .
    moreover have "r = fst (deleteBookCatch e d1)" using h t e(1) by (simp add: deleteBook_def)
    ultimately have "status r = 500" by (simp add: deleteBookCatch_def failure_def)
    then show ?thesis using e(2,3) ht mem by auto
  qed
qed

text \<open>
  C4, as the code has it. (1) A create, update or delete that is answered with success
  has appended exactly one entry to the activity log, of action ADD, EDIT or DELETE
  respectively, owned by the user the gate resolved; a create, update or delete that
  is not answered with success, every read, login and reset-password leave the log as
  it was, and clearing the log only removes entries. (2) A request that changed the
  books and is not answered with success was answered 500 and appended nothing: the
  append failed. (3) to (5) The create of a valid book with an ISBN that no stored
  book has, the update to a valid document that the unique index accepts, and the
  delete of a stored book with a title are stored, each with its entry and the
  success response when the append works, and with no entry and the 500 response when
  the append fails.
\<close>

theorem audit_entry_per_mutation:
  "(app env a req d = (r, d') \<longrightarrow>
      (case req of
            PostBook bd \<Rightarrow>
              (if success r
               then \<exists>u e. protect env a d = Inr u \<and> logs d' = logs d @ [e]
                      \<and> action e = ADD \<and> l_user e = u_id u
               else logs d' = logs d)
          | PutBook i bd \<Rightarrow>
              (if success r
               then \<exists>u e. protect env a d = Inr u \<and> logs d' = logs d @ [e]
                      \<and> action e = EDIT \<and> l_user e = u_id u
               else logs d' = logs d)
          | DeleteBook i \<Rightarrow>
              (if success r
               then \<exists>u e. protect env a d = Inr u \<and> logs d' = logs d @ [e]
                      \<and> action e = DELETE \<and> l_user e = u_id u
               else logs d' = logs d)
          | ClearLogs \<Rightarrow> (\<exists>P. logs d' = filter P (logs d))
          | _ \<Rightarrow> logs d' = logs d))
   \<and> (app env a req d = (r, d') \<and> books d' \<noteq> books d \<and> \<not> success r \<longrightarrow>
        status r = 500 \<and> logs d' = logs d
        \<and> (auditFails env \<or> (\<exists>b\<in>set (books d). title b = [])))
   \<and> (protect env a d = Inr u
        \<and> body_title bd = JString t \<and> t \<noteq> []
        \<and> body_author bd = JString au \<and> au \<noteq> []
        \<and> body_isbn bd = JString s \<and> s \<noteq> []
        \<and> \<not> falsy (body_year bd)
        \<and> nb = \<lparr>b_id = nextId d, b_user = u_id u, title = trim t, author = trim au,
                  isbn = trim s, year = parseInt (body_year bd), createdAt = now env,
                  updatedAt = now env\<rparr>
        \<and> validateBook env nb = []
        \<and> find (\<lambda>x. isbn x = trim s) (books d) = None \<longrightarrow>
      app env a (PostBook bd) d =
        (if auditFails env
         then (failure 500 ''Failed to add book. Please try again later.'',
               d\<lparr>books := books d @ [nb], nextId := Suc (Suc (nextId d)),
                 console := console d @ [(''Error adding book:'', StorageError)]\<rparr>)
         else (ok 201 (Some ''Book added successfully to your library'') None
                 (Some (BookData nb)),
               d\<lparr>books := books d @ [nb],
                 logs := logs d @
                   [\<lparr>l_id = Suc (nextId d), l_user = u_id u, action = ADD,
                     description = ''Added '' @ quoted (trim t) @ '' by '' @ trim au
                        @ '' to the library'',
                     bookTitle = trim t,
                     details = AddDetails (nextId d) (trim au) (trim s)
                                 (parseInt (body_year bd)),
                     timestamp = now env\<rparr>],
                 nextId := Suc (Suc (nextId d))\<rparr>)))
   \<and> (protect env a d = Inr u
        \<and> castObjectId env i = Some k
        \<and> find (\<lambda>b. b_id b = k \<and> b_user b = u_id u) (books d) = Some old
        \<and> assignTrimmed (body_title bdU) (\<lambda>s b. b\<lparr>title := s\<rparr>) old = Inr bT
        \<and> assignTrimmed (body_author bdU) (\<lambda>s b. b\<lparr>author := s\<rparr>) bT = Inr bA
        \<and> assignTrimmed (body_isbn bdU) (\<lambda>s b. b\<lparr>isbn := s\<rparr>) bA = Inr bI
        \<and> bY = (if falsy (body_year bdU) then bI
                 else bI\<lparr>year := parseInt (body_year bdU)\<rparr>)
        \<and> validateBook env bY = []
        \<and> (bY = old \<or> isbn bY = isbn old
             \<or> find (\<lambda>x. b_id x \<noteq> b_id bY \<and> isbn x = isbn bY) (books d) = None)
        \<and> b' = (if bY = old then old else bY\<lparr>updatedAt := now env\<rparr>)
        \<and> dS = (if bY = old then d
                 else d\<lparr>books := map (\<lambda>x. if b_id x = b_id bY then b' else x) (books d)\<rparr>)
        \<longrightarrow>
      app env a (PutBook i bdU) d =
        (if auditFails env
         then (failure 500 ''Failed to update book'',
               dS\<lparr>nextId := Suc (nextId d),
                  console := console d @ [(''Error updating book:'', StorageError)]\<rparr>)
         else (ok 200 (Some ''Book updated successfully'') None (Some (BookData b')),
               dS\<lparr>logs := logs d @
                    [\<lparr>l_id = nextId d, l_user = u_id u, action = EDIT,
                      description = ''Updated '' @ quoted (title old) @ '' book details'',
                      bookTitle = title b', details = EditDetails (b_id b') bdU,
                      timestamp = now env\<rparr>],
                  nextId := Suc (nextId d)\<rparr>)))
   \<and> (protect env a d = Inr u
        \<and> castObjectId env j = Some kd
        \<and> find (\<lambda>b. b_id b = kd \<and> b_user b = u_id u) (books d) = Some b
        \<and> title b \<noteq> [] \<longrightarrow>
      app env a (DeleteBook j) d =
        (if auditFails env
         then (failure 500 ''Failed to delete book'',
               d\<lparr>books := remove1 b (books d), nextId := Suc (nextId d),
                 console := console d @ [(''Error deleting book:'', StorageError)]\<rparr>)
         else (ok 200 (Some (quoted (title b) @ '' has been removed from your library'')) None
                 (Some (BookData b)),
               d\<lparr>books := remove1 b (books d),
                 logs := logs d @
                   [\<lparr>l_id = nextId d, l_user = u_id u, action = DELETE,
                     description = ''Removed '' @ quoted (title b) @ '' by '' @ author b
                        @ '' from the library'',
                     bookTitle = title b,
                     details = DeleteDetails (author b) (isbn b) (year b),
                     timestamp = now env\<rparr>],
                 nextId := Suc (nextId d)\<rparr>)))"
  apply (intro conjI)
      apply (rule impI, erule log_entries)
     apply (rule impI, elim conjE, rule unlogged_mutation; assumption)
    apply (rule impI, elim conjE, rule postBook_stores; assumption)
   apply (rule impI, elim conjE, rule putBook_stores; assumption)
  apply (rule impI, elim conjE, rule deleteBook_stores; assumption)
  done

text \<open>
  C4 as the specification states it, refuted. Alice deletes her book while the append to
  the activity log fails: the book is removed from the store, so the delete has taken
  effect, and the log has no entry for it; Alice is answered 500.
\<close>

theorem mutation_without_log_entry:
  "auditFails failingEnv
   \<and> books store0 = [dune] \<and> logs store0 = []
   \<and> app failingEnv (Some ''Bearer tokenA'') (DeleteBook duneId) store0 =
       (failure 500 ''Failed to delete book'',
        store0\<lparr>books := [], nextId := 18,
          console := [(''Error deleting book:'', StorageError)]\<rparr>)
   \<and> books (snd (app failingEnv (Some ''Bearer tokenA'') (DeleteBook duneId) store0)) = []
   \<and> logs (snd (app failingEnv (Some ''Bearer tokenA'') (DeleteBook duneId) store0)) = []"
proof -
  have p: "protect failingEnv (Some ''Bearer tokenA'') store0 = Inr alice"
    by (simp add: protect_def findById_def bearerToken_def startsWith_def failingEnv_def
        env0_def store0_def alice_def bob_def)
  have run: "app failingEnv (Some ''Bearer tokenA'') (DeleteBook duneId) store0 =
       (failure 500 ''Failed to delete book'',
        store0\<lparr>books := [], nextId := 18,
          console := [(''Error deleting book:'', StorageError)]\<rparr>)"
    unfolding app_reaches_handler(5) [OF p]
    by (simp add: deleteBook_def deleteBookTry_def failingEnv_simps cast_duneId)
      (simp add: store0_def alice_def dune_def findOneAndDelete_def newObjectId_def
        logActivity_def validateActivity_def failingEnv_simps deleteBookCatch_def Let_def)
  show ?thesis
    unfolding run by (simp add: failingEnv_simps) (simp add: store0_def)
qed

theorem audit_entry_per_mutation_witness:
  "app env0 (Some ''Bearer tokenB'') (PostBook emmaBody) store0 =
     (ok 201 (Some ''Book added successfully to your library'') None (Some (BookData emma)),
      store0\<lparr>books := [dune, emma],
        logs := [\<lparr>l_id = 18, l_user = 2, action = ADD,
           description = ''Added '' @ quoted ''Emma'' @ '' by Austen to the library'',
           bookTitle = ''Emma'', details = AddDetails 17 ''Austen'' ''9780141439587'' (Num 1815),
           timestamp = 5000\<rparr>],
        nextId := 19\<rparr>)
   \<and> app env0 (Some ''Bearer tokenA'')
        (PutBook duneId (emptyBody\<lparr>body_year := JNumber ''1966''\<rparr>)) store0 =
     (ok 200 (Some ''Book updated successfully'') None
        (Some (BookData (dune\<lparr>year := Num 1966, updatedAt := 5000\<rparr>))),
      store0\<lparr>books := [dune\<lparr>year := Num 1966, updatedAt := 5000\<rparr>],
        logs := [\<lparr>l_id = 17, l_user = 1, action = EDIT,
           description = ''Updated '' @ quoted ''Dune'' @ '' book details'',
           bookTitle = ''Dune'',
           details = EditDetails 16 (emptyBody\<lparr>body_year := JNumber ''1966''\<rparr>),
           timestamp = 5000\<rparr>],
        nextId := 18\<rparr>)
   \<and> app env0 (Some ''Bearer tokenA'') (DeleteBook duneId) store0 =
     (ok 200 (Some (quoted ''Dune'' @ '' has been removed from your library'')) None
        (Some (BookData dune)),
      store0\<lparr>books := [],
        logs := [\<lparr>l_id = 17, l_user = 1, action = DELETE,
           description = ''Removed '' @ quoted ''Dune'' @ '' by Herbert from the library'',
           bookTitle = ''Dune'',
           details = DeleteDetails ''Herbert'' ''9780441013593'' (Num 1965),
           timestamp = 5000\<rparr>],
        nextId := 18\<rparr>)
   \<and> app failingEnv (Some ''Bearer tokenA'')
        (PutBook duneId (emptyBody\<lparr>body_year := JNumber ''1966''\<rparr>)) store0 =
     (failure 500 ''Failed to update book'',
      store0\<lparr>books := [dune\<lparr>year := Num 1966, updatedAt := 5000\<rparr>], nextId := 18,
        console := [(''Error updating book:'', StorageError)]\<rparr>)
   \<and> books (snd (app failingEnv (Some ''Bearer tokenA'')
        (PutBook duneId (emptyBody\<lparr>body_year := JNumber ''1966''\<rparr>)) store0)) \<noteq> books store0
   \<and> status (fst (app failingEnv (Some ''Bearer tokenA'')
        (PutBook duneId (emptyBody\<lparr>body_year := JNumber ''1966''\<rparr>)) store0)) = 500
   \<and> logs (snd (app failingEnv (Some ''Bearer tokenA'')
        (PutBook duneId (emptyBody\<lparr>body_year := JNumber ''1966''\<rparr>)) store0)) = logs store0
   \<and> logs (snd (app env0 (Some ''Bearer tokenA'') GetBooks store0)) = logs store0
   \<and> logs (snd (app env0 None (DeleteBook duneId) store0)) = logs store0"
proof -
  let ?yb = "emptyBody\<lparr>body_year := JNumber ''1966''\<rparr>"
  let ?dune' = "dune\<lparr>year := Num 1966, updatedAt := 5000\<rparr>"
  have pf: "protect failingEnv (Some ''Bearer tokenA'') store0 = Inr alice"
    by (simp add: protect_def findById_def bearerToken_def startsWith_def failingEnv_def
        env0_def store0_def alice_def bob_def)
  have off: "\<not> auditFails env0" by (simp add: env0_def)
  note post0 = audit_entry_per_mutation [where env = env0 and a = "Some ''Bearer tokenB''"
      and d = store0 and u = bob and bd = emmaBody and t = "''  Emma ''" and au = "''Austen''"
      and s = "''9780141439587''" and nb = emma,
      THEN conjunct2, THEN conjunct2, THEN conjunct1, THEN mp]
  have post: "app env0 (Some ''Bearer tokenB'') (PostBook emmaBody) store0 =
     (ok 201 (Some ''Book added successfully to your library'') None (Some (BookData emma)),
      store0\<lparr>books := [dune, emma],
        logs := [\<lparr>l_id = 18, l_user = 2, action = ADD,
           description = ''Added '' @ quoted ''Emma'' @ '' by Austen to the library'',
           bookTitle = ''Emma'', details = AddDetails 17 ''Austen'' ''9780141439587'' (Num 1815),
           timestamp = 5000\<rparr>],
        nextId := 19\<rparr>)"
  proof -
    have h: "protect env0 (Some ''Bearer tokenB'') store0 = Inr bob
        \<and> body_title emmaBody = JString ''  Emma '' \<and> ''  Emma '' \<noteq> []
        \<and> body_author emmaBody = JString ''Austen'' \<and> ''Austen'' \<noteq> []
        \<and> body_isbn emmaBody = JString ''9780141439587'' \<and> ''9780141439587'' \<noteq> []
        \<and> \<not> falsy (body_year emmaBody)
        \<and> emma = \<lparr>b_id = nextId store0, b_user = u_id bob, title = trim ''  Emma '',
                  author = trim ''Austen'', isbn = trim ''9780141439587'',
                  year = parseInt (body_year emmaBody), createdAt = now env0,
                  updatedAt = now env0\<rparr>
        \<and> validateBook env0 emma = []
        \<and> find (\<lambda>x. isbn x = trim ''9780141439587'') (books store0) = None"
      apply (intro conjI)
                 apply (rule protect_bob)
                apply (simp_all add: emmaBody_def emma_def store0_def bob_def dune_def
          trim_examples parse_examples env0_def validateBook_def validateString_def)
      done
    show ?thesis
      unfolding post0 [OF h]
      by (simp add: off) (simp add: store0_def emma_def bob_def emmaBody_def trim_examples
          parse_examples env0_def)
  qed
  have puth: "castObjectId env0 duneId = Some 16
        \<and> find (\<lambda>b. b_id b = 16 \<and> b_user b = u_id alice) (books store0) = Some dune
        \<and> assignTrimmed (body_title ?yb) (\<lambda>s b. b\<lparr>title := s\<rparr>) dune = Inr dune
        \<and> assignTrimmed (body_author ?yb) (\<lambda>s b. b\<lparr>author := s\<rparr>) dune = Inr dune
        \<and> assignTrimmed (body_isbn ?yb) (\<lambda>s b. b\<lparr>isbn := s\<rparr>) dune = Inr dune
        \<and> dune\<lparr>year := Num 1966\<rparr> = (if falsy (body_year ?yb) then dune
                 else dune\<lparr>year := parseInt (body_year ?yb)\<rparr>)
        \<and> validateBook env0 (dune\<lparr>year := Num 1966\<rparr>) = []
        \<and> (dune\<lparr>year := Num 1966\<rparr> = dune \<or> isbn (dune\<lparr>year := Num 1966\<rparr>) = isbn dune
             \<or> find (\<lambda>x. b_id x \<noteq> b_id (dune\<lparr>year := Num 1966\<rparr>)
                       \<and> isbn x = isbn (dune\<lparr>year := Num 1966\<rparr>)) (books store0) = None)
        \<and> ?dune' = (if dune\<lparr>year := Num 1966\<rparr> = dune then dune
                     else dune\<lparr>year := Num 1966\<rparr>\<lparr>updatedAt := now env0\<rparr>)
        \<and> store0\<lparr>books := [?dune']\<rparr> =
            (if dune\<lparr>year := Num 1966\<rparr> = dune then store0
             else store0\<lparr>books := map (\<lambda>x. if b_id x = b_id (dune\<lparr>year := Num 1966\<rparr>)
                                             then ?dune' else x) (books store0)\<rparr>)"
    apply (intro conjI)
             apply (rule cast_duneId)
            apply (simp_all add: emptyBody_def store0_def alice_def dune_def assignTrimmed_def
        parse_examples env0_def validateBook_def validateString_def)
    done
  have puth': "castObjectId failingEnv duneId = Some 16
        \<and> find (\<lambda>b. b_id b = 16 \<and> b_user b = u_id alice) (books store0) = Some dune
        \<and> assignTrimmed (body_title ?yb) (\<lambda>s b. b\<lparr>title := s\<rparr>) dune = Inr dune
        \<and> assignTrimmed (body_author ?yb) (\<lambda>s b. b\<lparr>author := s\<rparr>) dune = Inr dune
        \<and> assignTrimmed (body_isbn ?yb) (\<lambda>s b. b\<lparr>isbn := s\<rparr>) dune = Inr dune
        \<and> dune\<lparr>year := Num 1966\<rparr> = (if falsy (body_year ?yb) then dune
                 else dune\<lparr>year := parseInt (body_year ?yb)\<rparr>)
        \<and> validateBook failingEnv (dune\<lparr>year := Num 1966\<rparr>) = []
        \<and> (dune\<lparr>year := Num 1966\<rparr> = dune \<or> isbn (dune\<lparr>year := Num 1966\<rparr>) = isbn dune
             \<or> find (\<lambda>x. b_id x \<noteq> b_id (dune\<lparr>year := Num 1966\<rparr>)
                       \<and> isbn x = isbn (dune\<lparr>year := Num 1966\<rparr>)) (books store0) = None)
        \<and> ?dune' = (if dune\<lparr>year := Num 1966\<rparr> = dune then dune
                     else dune\<lparr>year := Num 1966\<rparr>\<lparr>updatedAt := now failingEnv\<rparr>)
        \<and> store0\<lparr>books := [?dune']\<rparr> =
            (if dune\<lparr>year := Num 1966\<rparr> = dune then store0
             else store0\<lparr>books := map (\<lambda>x. if b_id x = b_id (dune\<lparr>year := Num 1966\<rparr>)
                                             then ?dune' else x) (books store0)\<rparr>)"
    apply (intro conjI)
             apply (simp add: failingEnv_simps cast_duneId)
            apply (simp_all add: emptyBody_def store0_def alice_def dune_def assignTrimmed_def
        parse_examples failingEnv_def env0_def validateBook_def validateString_def)
    done
  note put0 = audit_entry_per_mutation [where env = env0 and a = "Some ''Bearer tokenA''"
      and d = store0 and u = alice and i = duneId and k = 16 and bdU = ?yb and old = dune
      and bT = dune and bA = dune and bI = dune and bY = "dune\<lparr>year := Num 1966\<rparr>"
      and b' = ?dune' and dS = "store0\<lparr>books := [?dune']\<rparr>",
      THEN conjunct2, THEN conjunct2, THEN conjunct2, THEN conjunct1, THEN mp,
      OF conjI [OF protect_alice puth]]
  have put: "app env0 (Some ''Bearer tokenA'') (PutBook duneId ?yb) store0 =
     (ok 200 (Some ''Book updated successfully'') None (Some (BookData ?dune')),
      store0\<lparr>books := [?dune'],
        logs := [\<lparr>l_id = 17, l_user = 1, action = EDIT,
           description = ''Updated '' @ quoted ''Dune'' @ '' book details'',
           bookTitle = ''Dune'', details = EditDetails 16 ?yb, timestamp = 5000\<rparr>],
        nextId := 18\<rparr>)"
    unfolding put0
    by (simp add: off) (simp add: store0_def dune_def alice_def env0_def)
  note putf0 = audit_entry_per_mutation [where env = failingEnv and a = "Some ''Bearer tokenA''"
      and d = store0 and u = alice and i = duneId and k = 16 and bdU = ?yb and old = dune
      and bT = dune and bA = dune and bI = dune and bY = "dune\<lparr>year := Num 1966\<rparr>"
      and b' = ?dune' and dS = "store0\<lparr>books := [?dune']\<rparr>",
      THEN conjunct2, THEN conjunct2, THEN conjunct2, THEN conjunct1, THEN mp,
      OF conjI [OF pf puth']]
  have putf: "app failingEnv (Some ''Bearer tokenA'') (PutBook duneId ?yb) store0 =
     (failure 500 ''Failed to update book'',
      store0\<lparr>books := [?dune'], nextId := 18,
        console := [(''Error updating book:'', StorageError)]\<rparr>)"
    unfolding putf0
    by (simp add: failingEnv_simps) (simp add: store0_def)
  have delh: "castObjectId env0 duneId = Some 16
        \<and> find (\<lambda>b. b_id b = 16 \<and> b_user b = u_id alice) (books store0) = Some dune
        \<and> title dune \<noteq> []"
    by (simp add: cast_duneId) (simp add: store0_def dune_def alice_def)
  note del0 = audit_entry_per_mutation [where env = env0 and a = "Some ''Bearer tokenA''"
      and d = store0 and u = alice and j = duneId and kd = 16 and b = dune,
      THEN conjunct2, THEN conjunct2, THEN conjunct2, THEN conjunct2, THEN mp,
      OF conjI [OF protect_alice delh]]
  have del: "app env0 (Some ''Bearer tokenA'') (DeleteBook duneId) store0 =
     (ok 200 (Some (quoted ''Dune'' @ '' has been removed from your library'')) None
        (Some (BookData dune)),
      store0\<lparr>books := [],
        logs := [\<lparr>l_id = 17, l_user = 1, action = DELETE,
           description = ''Removed '' @ quoted ''Dune'' @ '' by Herbert from the library'',
           bookTitle = ''Dune'',
           details = DeleteDetails ''Herbert'' ''9780441013593'' (Num 1965),
           timestamp = 5000\<rparr>],
        nextId := 18\<rparr>)"
    unfolding del0
    by (simp add: off) (simp add: store0_def dune_def alice_def env0_def)
  have read: "logs (snd (app env0 (Some ''Bearer tokenA'') GetBooks store0)) = logs store0"
    using audit_entry_per_mutation [where env = env0 and a = "Some ''Bearer tokenA''"
        and req = GetBooks and d = store0
        and r = "fst (app env0 (Some ''Bearer tokenA'') GetBooks store0)"
        and d' = "snd (app env0 (Some ''Bearer tokenA'') GetBooks store0)",
        THEN conjunct1]
    by simp
  have rejected: "logs (snd (app env0 None (DeleteBook duneId) store0)) = logs store0"
  proof -
    have "\<not> success (fst (app env0 None (DeleteBook duneId) store0))"
      by (simp add: protected_def protect_def bearerToken_def failure_def)
    then show ?thesis
      using audit_entry_per_mutation [where env = env0 and a = None
        and req = "DeleteBook duneId" and d = store0
        and r = "fst (app env0 None (DeleteBook duneId) store0)"
        and d' = "snd (app env0 None (DeleteBook duneId) store0)",
        THEN conjunct1]
      by simp
  qed
  have changed: "books (snd (app failingEnv (Some ''Bearer tokenA'') (PutBook duneId ?yb) store0))
      \<noteq> books store0"
    unfolding putf by (simp add: store0_def dune_def)
  have refused: "\<not> success (fst (app failingEnv (Some ''Bearer tokenA'')
      (PutBook duneId ?yb) store0))"
    unfolding putf by (simp add: failure_def)
  have unlogged: "status (fst (app failingEnv (Some ''Bearer tokenA'')
        (PutBook duneId ?yb) store0)) = 500
      \<and> logs (snd (app failingEnv (Some ''Bearer tokenA'') (PutBook duneId ?yb) store0))
          = logs store0"
    using audit_entry_per_mutation [where env = failingEnv and a = "Some ''Bearer tokenA''"
        and req = "PutBook duneId ?yb" and d = store0
        and r = "fst (app failingEnv (Some ''Bearer tokenA'') (PutBook duneId ?yb) store0)"
        and d' = "snd (app failingEnv (Some ''Bearer tokenA'') (PutBook duneId ?yb) store0)",
        THEN conjunct2, THEN conjunct1] changed refused
    by simp
  show ?thesis
    apply (intro conjI)
    using post apply simp
    using put apply simp
    using del apply simp
    using putf apply simp
    using changed apply simp
    using unlogged apply simp
    using unlogged apply simp
    using read apply simp
    using rejected apply simp
    done
qed

section \<open>What an update changes\<close>

lemma find_unique:
  assumes "distinct (map f xs)" and "x \<in> set xs" and "P x" and "\<And>y. P y \<Longrightarrow> f y = f x"
  shows "find P xs = Some x"
  using assms
proof (induction xs)
  case Nil
  then show ?case by simp
next
  case (Cons y ys)
  show ?case
  proof (cases "y = x")
    case True
    then show ?thesis using Cons.prems(3) by simp
  next
    case False
    then have x: "x \<in> set ys" using Cons.prems(2) by simp
    have "\<not> P y"
    proof
      assume "P y"
      then have "f y = f x" by (rule Cons.prems(4))
      moreover have "f y \<notin> f ` set ys" using Cons.prems(1) by simp
      ultimately show False using x by auto
    qed
    moreover have "find P ys = Some x"
      using Cons.IH [OF _ x Cons.prems(3) Cons.prems(4)] Cons.prems(1) by simp
    ultimately show ?thesis by simp
  qed
qed

lemma find_replaced:
  assumes "x \<in> set xs" and "f x = k" and "f y = k"
  shows "find (\<lambda>b. f b = k) (map (\<lambda>b. if f b = k then y else b) xs) = Some y"
  using assms by (induction xs) auto

lemma map_replaced:
  assumes "g y = g x" and "distinct (map f xs)" and "x \<in> set xs"
  shows "map g (map (\<lambda>b. if f b = f x then y else b) xs) = map g xs"
proof -
  have "b \<in> set xs \<Longrightarrow> f b = f x \<Longrightarrow> b = x" for b
    using assms(2,3) by (meson distinct_map inj_onD)
  then show ?thesis using assms(1) by (auto simp: comp_def)
qed

text \<open>
  C9. An update of a record by its owner. A property of the body that is absent (or
  falsy: the route assigns only truthy values) leaves its field as it was; the record
  keeps its identifier, its owner and its creation time; on success the truthy
  properties are written trimmed (the year parsed) and the response carries the record;
  every other record is untouched, and no record of the collection changes its
  identifier or its owner.
\<close>

theorem update_changes_supplied_fields_only:
  assumes "distinct (map b_id (books d))"
    and "old \<in> set (books d)" and "b_user old = u_id u"
    and "castObjectId env i = Some (b_id old)"
    and "putBook env u i bd d = (r, d')"
  shows "\<exists>new. find (\<lambda>b. b_id b = b_id old) (books d') = Some new
       \<and> b_id new = b_id old \<and> b_user new = b_user old \<and> createdAt new = createdAt old
       \<and> (falsy (body_title bd) \<longrightarrow> title new = title old)
       \<and> (falsy (body_author bd) \<longrightarrow> author new = author old)
       \<and> (falsy (body_isbn bd) \<longrightarrow> isbn new = isbn old)
       \<and> (falsy (body_year bd) \<longrightarrow> year new = year old)
       \<and> (success r \<longrightarrow>
            (\<forall>t. body_title bd = JString t \<and> t \<noteq> [] \<longrightarrow> title new = trim t)
          \<and> (\<forall>t. body_author bd = JString t \<and> t \<noteq> [] \<longrightarrow> author new = trim t)
          \<and> (\<forall>t. body_isbn bd = JString t \<and> t \<noteq> [] \<longrightarrow> isbn new = trim t)
          \<and> (\<not> falsy (body_year bd) \<longrightarrow> year new = parseInt (body_year bd))
          \<and> data r = Some (BookData new))
       \<and> (\<forall>x\<in>set (books d). b_id x \<noteq> b_id old \<longrightarrow> x \<in> set (books d'))
       \<and> map b_id (books d') = map b_id (books d)
       \<and> map b_user (books d') = map b_user (books d)"
proof -
  obtain x d1 where t: "putBookTry env u i bd d = (x, d1)" by (cases "putBookTry env u i bd d")
  note h = handler_of_try(2) [OF assms(5) t]
  have found: "find (\<lambda>b. b_id b = b_id old \<and> b_user b = u_id u) (books d) = Some old"
    by (rule find_unique [OF assms(1,2)]) (simp_all add: assms(3))
  have found': "find (\<lambda>b. b_id b = b_id old) (books d) = Some old"
    by (rule find_unique [OF assms(1,2)]) simp_all
  have eff: "(books d1 = books d \<and> logs d1 = logs d \<and> (\<forall>r. x = Inr r \<longrightarrow> \<not> success r))
          \<or> (\<exists>i0 old0 b b'.
                castObjectId env i = Some i0
              \<and> find (\<lambda>b. b_id b = i0 \<and> b_user b = u_id u) (books d) = Some old0
              \<and> validateBook env b = []
              \<and> b_id b = b_id old0 \<and> b_user b = b_user old0 \<and> createdAt b = createdAt old0
              \<and> updatedAt b = updatedAt old0
              \<and> (falsy (body_title bd) \<longrightarrow> title b = title old0)
              \<and> (falsy (body_author bd) \<longrightarrow> author b = author old0)
              \<and> (falsy (body_isbn bd) \<longrightarrow> isbn b = isbn old0)
              \<and> (falsy (body_year bd) \<longrightarrow> year b = year old0)
              \<and> (\<forall>t. body_title bd = JString t \<and> t \<noteq> [] \<longrightarrow> title b = trim t)
              \<and> (\<forall>t. body_author bd = JString t \<and> t \<noteq> [] \<longrightarrow> author b = trim t)
              \<and> (\<forall>t. body_isbn bd = JString t \<and> t \<noteq> [] \<longrightarrow> isbn b = trim t)
              \<and> (\<not> falsy (body_year bd) \<longrightarrow> year b = parseInt (body_year bd))
              \<and> (if b = old0 then b' = old0 \<and> books d1 = books d
                  else b' = b\<lparr>updatedAt := now env\<rparr>
                     \<and> books d1 = map (\<lambda>x. if b_id x = b_id old0 then b' else x) (books d))
              \<and> ((x = Inl StorageError \<and> auditFails env \<and> logs d1 = logs d)
                 \<or> (\<exists>e. x = Inr (ok 200 (Some ''Book updated successfully'') None
                                     (Some (BookData b')))
                       \<and> logs d1 = logs d @ [e] \<and> action e = EDIT \<and> l_user e = u_id u
                       \<and> bookTitle e = title b'
                       \<and> \<not> auditFails env)))"
    by (rule conjunct2 [OF conjunct2 [OF putBookTry_effect [OF t]]])
  have bk': "books d' = books d1" and succ: "success r \<longleftrightarrow> (\<exists>r'. x = Inr r' \<and> success r')"
    using h by simp_all
  from eff show ?thesis
  proof (rule disjE)
    assume "books d1 = books d \<and> logs d1 = logs d \<and> (\<forall>r. x = Inr r \<longrightarrow> \<not> success r)"
    then have "books d' = books d" "\<not> success r" using bk' succ by auto
    then show ?thesis using found' by simp
  next
    assume "\<exists>i0 old0 b b'.
                castObjectId env i = Some i0
              \<and> find (\<lambda>b. b_id b = i0 \<and> b_user b = u_id u) (books d) = Some old0
              \<and> validateBook env b = []
              \<and> b_id b = b_id old0 \<and> b_user b = b_user old0 \<and> createdAt b = createdAt old0
              \<and> updatedAt b = updatedAt old0
              \<and> (falsy (body_title bd) \<longrightarrow> title b = title old0)
              \<and> (falsy (body_author bd) \<longrightarrow> author b = author old0)
              \<and> (falsy (body_isbn bd) \<longrightarrow> isbn b = isbn old0)
              \<and> (falsy (body_year bd) \<longrightarrow> year b = year old0)
              \<and> (\<forall>t. body_title bd = JString t \<and> t \<noteq> [] \<longrightarrow> title b = trim t)
              \<and> (\<forall>t. body_author bd = JString t \<and> t \<noteq> [] \<longrightarrow> author b = trim t)
              \<and> (\<forall>t. body_isbn bd = JString t \<and> t \<noteq> [] \<longrightarrow> isbn b = trim t)
              \<and> (\<not> falsy (body_year bd) \<longrightarrow> year b = parseInt (body_year bd))
              \<and> (if b = old0 then b' = old0 \<and> books d1 = books d
                  else b' = b\<lparr>updatedAt := now env\<rparr>
                     \<and> books d1 = map (\<lambda>x. if b_id x = b_id old0 then b' else x) (books d))
              \<and> ((x = Inl StorageError \<and> auditFails env \<and> logs d1 = logs d)
                 \<or> (\<exists>e. x = Inr (ok 200 (Some ''Book updated successfully'') None
                                     (Some (BookData b')))
                       \<and> logs d1 = logs d @ [e] \<and> action e = EDIT \<and> l_user e = u_id u
                       \<and> bookTitle e = title b'
                       \<and> \<not> auditFails env))"
    then obtain i0 old0 b b' where
      c: "castObjectId env i = Some i0"
      and fo: "find (\<lambda>b. b_id b = i0 \<and> b_user b = u_id u) (books d) = Some old0"
      and keep: "b_id b = b_id old0" "b_user b = b_user old0" "createdAt b = createdAt old0"
      and unsupplied: "falsy (body_title bd) \<longrightarrow> title b = title old0"
        "falsy (body_author bd) \<longrightarrow> author b = author old0"
        "falsy (body_isbn bd) \<longrightarrow> isbn b = isbn old0"
        "falsy (body_year bd) \<longrightarrow> year b = year old0"
      and supplied: "\<forall>t. body_title bd = JString t \<and> t \<noteq> [] \<longrightarrow> title b = trim t"
        "\<forall>t. body_author bd = JString t \<and> t \<noteq> [] \<longrightarrow> author b = trim t"
        "\<forall>t. body_isbn bd = JString t \<and> t \<noteq> [] \<longrightarrow> isbn b = trim t"
        "\<not> falsy (body_year bd) \<longrightarrow> year b = parseInt (body_year bd)"
      and written: "if b = old0 then b' = old0 \<and> books d1 = books d
                  else b' = b\<lparr>updatedAt := now env\<rparr>
                     \<and> books d1 = map (\<lambda>x. if b_id x = b_id old0 then b' else x) (books d)"
      and answer: "x = Inl StorageError
                 \<or> x = Inr (ok 200 (Some ''Book updated successfully'') None
                                     (Some (BookData b')))"
      by blast
    have old0: "old0 = old" using c fo assms(4) found by simp
    have resp: "data r = Some (BookData b')" if "success r"
    proof -
      from that succ obtain r' where "x = Inr r'" by auto
      with answer have "x = Inr (ok 200 (Some ''Book updated successfully'') None
                                     (Some (BookData b')))" by auto
      then have "putBook env u i bd d
          = (ok 200 (Some ''Book updated successfully'') None (Some (BookData b')), d1)"
        using t by (simp add: putBook_def)
      then show ?thesis using assms(5) by (simp add: ok_def)
    qed
    show ?thesis
    proof (cases "b = old")
      case True
      then have bk: "books d' = books d" and b': "b' = old" using written old0 bk' by auto
      have ex: "find (\<lambda>b. b_id b = b_id old) (books d') = Some old
          \<and> (success r \<longrightarrow> data r = Some (BookData old))"
        using bk found' resp b' by simp
      have fields: "(\<forall>t. body_title bd = JString t \<and> t \<noteq> [] \<longrightarrow> title old = trim t)
          \<and> (\<forall>t. body_author bd = JString t \<and> t \<noteq> [] \<longrightarrow> author old = trim t)
          \<and> (\<forall>t. body_isbn bd = JString t \<and> t \<noteq> [] \<longrightarrow> isbn old = trim t)
          \<and> (\<not> falsy (body_year bd) \<longrightarrow> year old = parseInt (body_year bd))"
        using supplied True by simp
      show ?thesis
        apply (rule exI [of _ old])
        using ex fields apply (simp add: bk)
        done
    next
      case False
      then have b': "b' = b\<lparr>updatedAt := now env\<rparr>"
        and bk: "books d' = map (\<lambda>x. if b_id x = b_id old then b' else x) (books d)"
        using written old0 bk' by auto
      have id': "b_id b' = b_id old" using b' keep(1) old0 by simp
      have f: "find (\<lambda>b. b_id b = b_id old) (books d') = Some b'"
        unfolding bk by (rule find_replaced [OF assms(2) refl id'])
      have ids: "map b_id (books d') = map b_id (books d)"
        unfolding bk by (rule map_replaced [OF id' assms(1,2)])
      have owners: "map b_user (books d') = map b_user (books d)"
        unfolding bk by (rule map_replaced [OF _ assms(1,2)]) (simp add: b' keep(2) old0)
      have others: "\<forall>x\<in>set (books d). b_id x \<noteq> b_id old \<longrightarrow> x \<in> set (books d')"
        unfolding bk by auto
      have fields: "b_user b' = b_user old \<and> createdAt b' = createdAt old
          \<and> (falsy (body_title bd) \<longrightarrow> title b' = title old)
          \<and> (falsy (body_author bd) \<longrightarrow> author b' = author old)
          \<and> (falsy (body_isbn bd) \<longrightarrow> isbn b' = isbn old)
          \<and> (falsy (body_year bd) \<longrightarrow> year b' = year old)
          \<and> (\<forall>t. body_title bd = JString t \<and> t \<noteq> [] \<longrightarrow> title b' = trim t)
          \<and> (\<forall>t. body_author bd = JString t \<and> t \<noteq> [] \<longrightarrow> author b' = trim t)
          \<and> (\<forall>t. body_isbn bd = JString t \<and> t \<noteq> [] \<longrightarrow> isbn b' = trim t)
          \<and> (\<not> falsy (body_year bd) \<longrightarrow> year b' = parseInt (body_year bd))"
        using keep unsupplied supplied old0 by (simp add: b')
      show ?thesis
        apply (rule exI [of _ b'])
        using f id' ids owners others fields resp apply simp
        done
    qed
  qed
qed

theorem update_changes_supplied_fields_only_witness:
  "distinct (map b_id (books store0)) \<and> dune \<in> set (books store0)
   \<and> b_user dune = u_id alice \<and> castObjectId env0 duneId = Some (b_id dune)
   \<and> success (fst (putBook env0 alice duneId (emptyBody\<lparr>body_year := JNumber ''1966''\<rparr>) store0))
   \<and> (\<exists>new. find (\<lambda>b. b_id b = b_id dune)
                (books (snd (putBook env0 alice duneId
                   (emptyBody\<lparr>body_year := JNumber ''1966''\<rparr>) store0))) = Some new
          \<and> b_user new = b_user dune \<and> title new = title dune \<and> author new = author dune
          \<and> isbn new = isbn dune \<and> year new = Num 1966)"
proof -
  let ?bd = "emptyBody\<lparr>body_year := JNumber ''1966''\<rparr>"
  have h1: "distinct (map b_id (books store0))" by (simp add: store0_def)
  have h2: "dune \<in> set (books store0)" by (simp add: store0_def)
  have h3: "b_user dune = u_id alice" by (simp add: dune_def alice_def)
  have h4: "castObjectId env0 duneId = Some (b_id dune)" by (simp add: cast_duneId dune_def)
  have h5: "putBook env0 alice duneId ?bd store0
      = (fst (putBook env0 alice duneId ?bd store0), snd (putBook env0 alice duneId ?bd store0))"
    by simp
  have s: "success (fst (putBook env0 alice duneId ?bd store0))"
    by (simp add: putBook_def putBookTry_def cast_duneId)
      (simp add: emptyBody_def store0_def alice_def dune_def assignTrimmed_def parse_examples
        newObjectId_def updateBook_def validateBook_def
        validateString_def env0_def logActivity_def validateActivity_def quoted_def
        Let_def ok_def)
  have f: "falsy (body_title ?bd)" "falsy (body_author ?bd)" "falsy (body_isbn ?bd)"
    "\<not> falsy (body_year ?bd)" "parseInt (body_year ?bd) = Num 1966"
    by (simp_all add: emptyBody_def parse_examples)
  from update_changes_supplied_fields_only [OF h1 h2 h3 h4 h5]
  obtain new where "find (\<lambda>b. b_id b = b_id dune)
                (books (snd (putBook env0 alice duneId ?bd store0))) = Some new
          \<and> b_user new = b_user dune \<and> title new = title dune \<and> author new = author dune
          \<and> isbn new = isbn dune \<and> year new = Num 1966"
    using s f by auto
  then show ?thesis using h1 h2 h3 h4 s by blast
qed

section \<open>Reset tokens\<close>

lemma reset_without_match:
  assumes "find (validResetToken env (sha256 env tok)) (users d) = None"
  shows "resetPassword env tok pw d =
           (if falsy pw then failure 400 ''Please provide a new password''
            else if (case pw of JString p \<Rightarrow> length p < 6 | _ \<Rightarrow> False)
            then failure 400 ''Password must be at least 6 characters long''
            else failure 400 ''Invalid or expired reset token'', d)"
  using assms by (simp add: resetPassword_def resetPasswordTry_def)

lemma reset_success:
  assumes "resetPassword env tok pw d = (r, d')" and "success r"
  shows "\<exists>u p. find (validResetToken env (sha256 env tok)) (users d) = Some u
       \<and> castString pw = Some p \<and> 6 \<le> length p
       \<and> d' = d\<lparr>users := map (\<lambda>x. if u_id x = u_id u
                                  then u\<lparr>password := bcryptHash env p,
                                         resetPasswordToken := None,
                                         resetPasswordExpire := None\<rparr>
                                  else x) (users d)\<rparr>"
proof (cases "find (validResetToken env (sha256 env tok)) (users d)")
  case None
  then show ?thesis using assms reset_without_match [OF None, of pw]
    by (auto simp: failure_def split: if_splits)
next
  case (Some u)
  have pre: "\<not> falsy pw" "\<not> (case pw of JString p \<Rightarrow> length p < 6 | _ \<Rightarrow> False)"
    using assms by (auto simp: resetPassword_def resetPasswordTry_def failure_def split: if_splits)
  obtain p where p: "castString pw = Some p" using pre(1) by (cases pw) auto
  show ?thesis
  proof (cases "validatePassword (Some p)")
    case Nil
    then have len: "6 \<le> length p" by (auto simp: validatePassword_def split: if_splits)
    have "resetPassword env tok pw d =
        (ok 200 (Some ''Password reset successful! You can now login with your new password.'')
           None None,
         d\<lparr>users := map (\<lambda>x. if u_id x = u_id u
                                  then u\<lparr>password := bcryptHash env p,
                                         resetPasswordToken := None,
                                         resetPasswordExpire := None\<rparr>
                                  else x) (users d)\<rparr>)"
      using pre Some p Nil
      by (simp add: resetPassword_def resetPasswordTry_def saveResetUser_def)
    then show ?thesis using assms(1) Some p len by simp
  next
    case (Cons e es)
    then have "resetPassword env tok pw d =
        resetPasswordCatch (ValidationError (e # es)) d"
      using pre Some p
      by (simp add: resetPassword_def resetPasswordTry_def saveResetUser_def)
    then show ?thesis using assms by (simp add: resetPasswordCatch_def failure_def)
  qed
qed

lemma find_None_after_reset:
  assumes unique: "\<forall>x\<in>set us. \<forall>y\<in>set us.
             resetPasswordToken x = Some h \<and> resetPasswordToken y = Some h \<longrightarrow> u_id x = u_id y"
    and u: "u \<in> set us" "resetPasswordToken u = Some h"
    and u': "resetPasswordToken u' = None"
  shows "find (validResetToken env2 h) (map (\<lambda>x. if u_id x = u_id u then u' else x) us) = None"
proof -
  have "\<not> validResetToken env2 h y"
    if "y \<in> set (map (\<lambda>x. if u_id x = u_id u then u' else x) us)" for y
  proof -
    from that obtain x where x: "x \<in> set us" "y = (if u_id x = u_id u then u' else x)" by auto
    show ?thesis
    proof (cases "u_id x = u_id u")
      case True
      then show ?thesis using x(2) u' by (simp add: validResetToken_def)
    next
      case False
      then have "resetPasswordToken x \<noteq> Some h" using unique x(1) u by blast
      then show ?thesis using x(2) False by (simp add: validResetToken_def)
    qed
  qed
  then show ?thesis unfolding find_None_iff by blast
qed

text \<open>
  C8. A successful reset found a user whose stored token hash is the hash of the presented
  token and whose expiry is later than now, and its one write replaced that user's
  password by the hash of the new one and cleared both reset fields. Reset tokens are
  32 random bytes, so one hash is stored for one account at most; then a second reset
  with the same raw token is refused with 400 and changes nothing, with the message
  "Invalid or expired reset token" when the new password is acceptable. A token whose
  stored expiry is not later than now is refused in the same way.
\<close>

theorem reset_token_single_use:
  "(resetPassword env tok pw d = (r, d') \<and> success r \<longrightarrow>
      (\<exists>u p. u \<in> set (users d) \<and> validResetToken env (sha256 env tok) u
         \<and> castString pw = Some p
         \<and> users d' = map (\<lambda>x. if u_id x = u_id u
                                 then u\<lparr>password := bcryptHash env p,
                                        resetPasswordToken := None,
                                        resetPasswordExpire := None\<rparr>
                                 else x) (users d)
         \<and> (\<forall>x\<in>set (users d'). u_id x = u_id u \<longrightarrow>
               password x = bcryptHash env p \<and> resetPasswordToken x = None
               \<and> resetPasswordExpire x = None)))
   \<and> (resetPassword env tok pw d = (r, d') \<and> success r
        \<and> (\<forall>x\<in>set (users d). \<forall>y\<in>set (users d).
              resetPasswordToken x = Some (sha256 env tok)
              \<and> resetPasswordToken y = Some (sha256 env tok) \<longrightarrow> u_id x = u_id y)
        \<and> sha256 env2 = sha256 env \<longrightarrow>
      \<not> success (fst (resetPassword env2 tok pw2 d'))
      \<and> status (fst (resetPassword env2 tok pw2 d')) = 400
      \<and> snd (resetPassword env2 tok pw2 d') = d'
      \<and> (\<forall>p2. pw2 = JString p2 \<and> 6 \<le> length p2 \<longrightarrow>
            fst (resetPassword env2 tok pw2 d') = failure 400 ''Invalid or expired reset token''))
   \<and> ((\<forall>x\<in>set (users d). resetPasswordToken x = Some (sha256 env tok) \<longrightarrow>
          (case resetPasswordExpire x of None \<Rightarrow> True | Some t \<Rightarrow> t \<le> now env)) \<longrightarrow>
      \<not> success (fst (resetPassword env tok pw d))
      \<and> status (fst (resetPassword env tok pw d)) = 400
      \<and> snd (resetPassword env tok pw d) = d
      \<and> (\<forall>p. pw = JString p \<and> 6 \<le> length p \<longrightarrow>
            fst (resetPassword env tok pw d) = failure 400 ''Invalid or expired reset token''))"
proof (intro conjI)
  show "resetPassword env tok pw d = (r, d') \<and> success r \<longrightarrow>
      (\<exists>u p. u \<in> set (users d) \<and> validResetToken env (sha256 env tok) u
         \<and> castString pw = Some p
         \<and> users d' = map (\<lambda>x. if u_id x = u_id u
                                 then u\<lparr>password := bcryptHash env p,
                                        resetPasswordToken := None,
                                        resetPasswordExpire := None\<rparr>
                                 else x) (users d)
         \<and> (\<forall>x\<in>set (users d'). u_id x = u_id u \<longrightarrow>
               password x = bcryptHash env p \<and> resetPasswordToken x = None
               \<and> resetPasswordExpire x = None))"
  proof (rule impI)
  assume a: "resetPassword env tok pw d = (r, d') \<and> success r"
  from reset_success [of env tok pw d r d'] a obtain u p where
    f: "find (validResetToken env (sha256 env tok)) (users d) = Some u"
    and p: "castString pw = Some p"
    and d': "d' = d\<lparr>users := map (\<lambda>x. if u_id x = u_id u
                                  then u\<lparr>password := bcryptHash env p,
                                         resetPasswordToken := None,
                                         resetPasswordExpire := None\<rparr>
                                  else x) (users d)\<rparr>"
    by blast
  have u: "u \<in> set (users d)" "validResetToken env (sha256 env tok) u"
    using find_Some_in [OF f] by simp_all
  have cleared: "\<forall>x\<in>set (users d'). u_id x = u_id u \<longrightarrow>
               password x = bcryptHash env p \<and> resetPasswordToken x = None
               \<and> resetPasswordExpire x = None"
    by (auto simp: d')
  show "\<exists>u p. u \<in> set (users d) \<and> validResetToken env (sha256 env tok) u
         \<and> castString pw = Some p
         \<and> users d' = map (\<lambda>x. if u_id x = u_id u
                                 then u\<lparr>password := bcryptHash env p,
                                        resetPasswordToken := None,
                                        resetPasswordExpire := None\<rparr>
                                 else x) (users d)
         \<and> (\<forall>x\<in>set (users d'). u_id x = u_id u \<longrightarrow>
               password x = bcryptHash env p \<and> resetPasswordToken x = None
               \<and> resetPasswordExpire x = None)"
    apply (rule exI [of _ u], rule exI [of _ p])
    using u p cleared apply (simp add: d')
    done
  qed
next
  show "resetPassword env tok pw d = (r, d') \<and> success r
        \<and> (\<forall>x\<in>set (users d). \<forall>y\<in>set (users d).
              resetPasswordToken x = Some (sha256 env tok)
              \<and> resetPasswordToken y = Some (sha256 env tok) \<longrightarrow> u_id x = u_id y)
        \<and> sha256 env2 = sha256 env \<longrightarrow>
      \<not> success (fst (resetPassword env2 tok pw2 d'))
      \<and> status (fst (resetPassword env2 tok pw2 d')) = 400
      \<and> snd (resetPassword env2 tok pw2 d') = d'
      \<and> (\<forall>p2. pw2 = JString p2 \<and> 6 \<le> length p2 \<longrightarrow>
            fst (resetPassword env2 tok pw2 d') = failure 400 ''Invalid or expired reset token'')"
  proof (rule impI)
  assume a: "resetPassword env tok pw d = (r, d') \<and> success r
        \<and> (\<forall>x\<in>set (users d). \<forall>y\<in>set (users d).
              resetPasswordToken x = Some (sha256 env tok)
              \<and> resetPasswordToken y = Some (sha256 env tok) \<longrightarrow> u_id x = u_id y)
        \<and> sha256 env2 = sha256 env"
  from reset_success [of env tok pw d r d'] a obtain u p where
    f: "find (validResetToken env (sha256 env tok)) (users d) = Some u"
    and d': "d' = d\<lparr>users := map (\<lambda>x. if u_id x = u_id u
                                  then u\<lparr>password := bcryptHash env p,
                                         resetPasswordToken := None,
                                         resetPasswordExpire := None\<rparr>
                                  else x) (users d)\<rparr>"
    by blast
  have u: "u \<in> set (users d)" "resetPasswordToken u = Some (sha256 env tok)"
    using find_Some_in [OF f] by (simp_all add: validResetToken_def)
  have unique: "\<forall>x\<in>set (users d). \<forall>y\<in>set (users d).
              resetPasswordToken x = Some (sha256 env tok)
              \<and> resetPasswordToken y = Some (sha256 env tok) \<longrightarrow> u_id x = u_id y"
    using a by blast
  have "find (validResetToken env2 (sha256 env tok)) (users d') = None"
    unfolding d' using find_None_after_reset [OF unique u, of _ env2] by simp
  then have none: "find (validResetToken env2 (sha256 env2 tok)) (users d') = None"
    using a by simp
  note second = reset_without_match [OF none, of pw2]
  show "\<not> success (fst (resetPassword env2 tok pw2 d'))
      \<and> status (fst (resetPassword env2 tok pw2 d')) = 400
      \<and> snd (resetPassword env2 tok pw2 d') = d'
      \<and> (\<forall>p2. pw2 = JString p2 \<and> 6 \<le> length p2 \<longrightarrow>
            fst (resetPassword env2 tok pw2 d') = failure 400 ''Invalid or expired reset token'')"
    unfolding second by (auto simp: failure_def)
  qed
next
  show "(\<forall>x\<in>set (users d). resetPasswordToken x = Some (sha256 env tok) \<longrightarrow>
          (case resetPasswordExpire x of None \<Rightarrow> True | Some t \<Rightarrow> t \<le> now env)) \<longrightarrow>
      \<not> success (fst (resetPassword env tok pw d))
      \<and> status (fst (resetPassword env tok pw d)) = 400
      \<and> snd (resetPassword env tok pw d) = d
      \<and> (\<forall>p. pw = JString p \<and> 6 \<le> length p \<longrightarrow>
            fst (resetPassword env tok pw d) = failure 400 ''Invalid or expired reset token'')"
  proof (rule impI)
  assume a: "\<forall>x\<in>set (users d). resetPasswordToken x = Some (sha256 env tok) \<longrightarrow>
          (case resetPasswordExpire x of None \<Rightarrow> True | Some t \<Rightarrow> t \<le> now env)"
  have "\<not> validResetToken env (sha256 env tok) x" if "x \<in> set (users d)" for x
    using a that by (auto simp: validResetToken_def split: option.splits)
  then have none: "find (validResetToken env (sha256 env tok)) (users d) = None"
    by (simp add: find_None_iff)
  note expired = reset_without_match [OF none, of pw]
  show "\<not> success (fst (resetPassword env tok pw d))
      \<and> status (fst (resetPassword env tok pw d)) = 400
      \<and> snd (resetPassword env tok pw d) = d
      \<and> (\<forall>p. pw = JString p \<and> 6 \<le> length p \<longrightarrow>
            fst (resetPassword env tok pw d) = failure 400 ''Invalid or expired reset token'')"
    unfolding expired by (auto simp: failure_def)
  qed
qed

lemma reset_alice:
  "resetPassword env0 ''r4nd0m'' (JString ''newpass'') store0 =
     (ok 200 (Some ''Password reset successful! You can now login with your new password.'')
        None None,
      store0\<lparr>users := [alice\<lparr>password := ''$2a$12$newpass'', resetPasswordToken := None,
                               resetPasswordExpire := None\<rparr>, bob]\<rparr>)"
  by (simp add: resetPassword_def resetPasswordTry_def saveResetUser_def validatePassword_def
      validResetToken_def env0_def store0_def alice_def bob_def)

theorem reset_token_single_use_witness:
  "success (fst (resetPassword env0 ''r4nd0m'' (JString ''newpass'') store0))
   \<and> users (snd (resetPassword env0 ''r4nd0m'' (JString ''newpass'') store0)) =
       [alice\<lparr>password := bcryptHash env0 ''newpass'', resetPasswordToken := None,
               resetPasswordExpire := None\<rparr>, bob]
   \<and> resetPassword env0 ''r4nd0m'' (JString ''newpass'')
        (snd (resetPassword env0 ''r4nd0m'' (JString ''newpass'') store0)) =
       (failure 400 ''Invalid or expired reset token'',
        snd (resetPassword env0 ''r4nd0m'' (JString ''newpass'') store0))
   \<and> resetPasswordToken bob = Some (sha256 env0 ''0ld'')
   \<and> resetPassword env0 ''0ld'' (JString ''newpass'') store0 =
       (failure 400 ''Invalid or expired reset token'', store0)"
proof -
  let ?pw = "JString ''newpass''"
  let ?r = "fst (resetPassword env0 ''r4nd0m'' ?pw store0)"
  let ?d = "snd (resetPassword env0 ''r4nd0m'' ?pw store0)"
  have run: "resetPassword env0 ''r4nd0m'' ?pw store0 = (?r, ?d)" by simp
  have s: "success ?r" by (simp add: reset_alice ok_def)
  have us: "users ?d = [alice\<lparr>password := bcryptHash env0 ''newpass'',
      resetPasswordToken := None, resetPasswordExpire := None\<rparr>, bob]"
  proof -
    have "bcryptHash env0 ''newpass'' = ''$2a$12$newpass''" by (simp add: env0_def)
    then show ?thesis by (simp add: reset_alice)
  qed
  have unique: "\<forall>x\<in>set (users store0). \<forall>y\<in>set (users store0).
              resetPasswordToken x = Some (sha256 env0 ''r4nd0m'')
              \<and> resetPasswordToken y = Some (sha256 env0 ''r4nd0m'') \<longrightarrow> u_id x = u_id y"
    by (simp add: store0_def alice_def bob_def env0_def)
  have expired: "\<forall>x\<in>set (users store0). resetPasswordToken x = Some (sha256 env0 ''0ld'') \<longrightarrow>
          (case resetPasswordExpire x of None \<Rightarrow> True | Some t \<Rightarrow> t \<le> now env0)"
    by (simp add: store0_def alice_def bob_def env0_def)
  have bobs: "resetPasswordToken bob = Some (sha256 env0 ''0ld'')"
    by (simp add: bob_def env0_def)
  have len: "6 \<le> length ''newpass''" by simp
  from reset_token_single_use [of env0 "''r4nd0m''" ?pw store0 ?r ?d env0 ?pw]
    run s unique len
  have second: "fst (resetPassword env0 ''r4nd0m'' ?pw ?d)
      = failure 400 ''Invalid or expired reset token''"
    "snd (resetPassword env0 ''r4nd0m'' ?pw ?d) = ?d"
    by blast+
  from reset_token_single_use [of env0 "''0ld''" ?pw store0 ?r ?d env0 ?pw] expired len
  have old: "fst (resetPassword env0 ''0ld'' ?pw store0)
      = failure 400 ''Invalid or expired reset token''"
    "snd (resetPassword env0 ''0ld'' ?pw store0) = store0"
    by blast+
  show ?thesis using s us second old bobs by (simp add: prod_eq_iff)
qed

section \<open>The authorization gate\<close>

lemma scopedTo_unchanged:
  "books d' = books d \<Longrightarrow> logs d' = logs d \<Longrightarrow> users d' = users d \<Longrightarrow> ownedData uid r
     \<Longrightarrow> scopedTo uid d r d'"
  by (simp add: scopedTo_def list_all_iff)
















lemma splitOn_first:
  "\<exists>ps. splitOn sep t = takeWhile (\<lambda>c. c \<noteq> sep) t # ps"
  by (induction t) (auto split: list.splits)

lemma bearerToken_cases:
  "bearerToken None = None"
  "\<not> startsWith a ''Bearer'' \<Longrightarrow> bearerToken (Some a) = None"
  "bearerToken (Some (''Bearer '' @ t)) = Some (takeWhile (\<lambda>c. c \<noteq> CHR '' '') t)"
proof -
  show "bearerToken None = None" by (simp add: bearerToken_def)
  show "\<not> startsWith a ''Bearer'' \<Longrightarrow> bearerToken (Some a) = None"
    by (simp add: bearerToken_def)
  obtain ps where "splitOn (CHR '' '') t = takeWhile (\<lambda>c. c \<noteq> CHR '' '') t # ps"
    using splitOn_first by blast
  then show "bearerToken (Some (''Bearer '' @ t)) = Some (takeWhile (\<lambda>c. c \<noteq> CHR '' '') t)"
    by (simp add: bearerToken_def startsWith_def)
qed













end
